theory Spec2Isabelle
  imports Complex_Main
begin

section \<open>Data model of PyCosworth\<close>

text \<open>
  The embedding follows \<^verbatim>\<open>iomodules/SerialIO.py\<close> (the acquisition worker) and the
  \<^verbatim>\<open>__main__\<close> block of \<^verbatim>\<open>PyCosworth.py\<close> (the coordinator). Python ints
  are modelled by \<^typ>\<open>int\<close>, dictionaries by maps, and every exception the modelled
  statements can raise is a value of \<open>error\<close>. The numbers of the settings and the clock
  readings are rationals. The demo data generator is written over an arbitrary arithmetic
  (type \<open>arith\<close> below), so that what is proved of it for every arithmetic holds of the
  rounding arithmetic of Python floats; SerialIO as a whole runs it in exact arithmetic.
\<close>

datatype error =
    NameError string
  | UnboundLocalError string
  | KeyError string
  | IndexError
  | ZeroDivisionError

text \<open>A value stored for a sensor: a number, the string a live read returns, or None.\<close>

datatype pyval = PNone | PNum rat | PStr string

text \<open>One entry of \<^verbatim>\<open>settings.SENSORS\<close>, a dictionary with these keys.\<close>

record sensor =
  sensorId :: string
  refresh :: rat
  minValue :: rat
  maxValue :: rat

text \<open>
  Modelled from the spec: \<^verbatim>\<open>libs/settings.py\<close> is not among the sources. The constants
  \<^verbatim>\<open>TYPE_DATA\<close> and \<^verbatim>\<open>TYPE_ERROR\<close> are two distinct message kinds (any other tag is
  an unrecognised kind), and \<^verbatim>\<open>BUTTON_SHORT\<close> and \<^verbatim>\<open>BUTTON_LONG\<close> are two distinct
  press duration classes.
\<close>

datatype msg_kind = TYPE_DATA | TYPE_ERROR | TYPE_OTHER nat

datatype press_duration = BUTTON_SHORT | BUTTON_LONG | BUTTON_NONE

text \<open>The values of \<^verbatim>\<open>settings\<close> that the two source files read.\<close>

record settings =
  SENSORS :: "sensor list"
  DEMO_STEPS :: int
  settings_SERIALIO_DEMO :: bool
  BUTTON_DEST_SERIALIO :: nat
  MAX_ERRORS :: int
  USE_CONSOLE :: bool
  USE_MATRIX :: bool
  USE_BUTTONS :: bool
  USE_GRAPHICS :: bool

text \<open>
  Modelled from the spec: class \<^verbatim>\<open>ControlData\<close> (\<^verbatim>\<open>libs/ControlData.py\<close>) is not among
  the sources. A control message carries the pressed flag \<^verbatim>\<open>button\<close>, the press
  \<^verbatim>\<open>duration\<close> class and the method \<^verbatim>\<open>isMine\<close>, which decides for a worker id whether
  the message is addressed to that worker.
\<close>

record ControlData =
  isMine :: "nat \<Rightarrow> bool"
  button :: bool
  duration :: press_duration

text \<open>The tuple that SerialIO puts on the receive queue: kind, sensor id, value, sample
  count, time taken by the cycle.\<close>

type_synonym sample_event = "msg_kind \<times> string \<times> pyval \<times> int \<times> rat"

section \<open>SerialIO: the demo data generator\<close>

text \<open>
  The arithmetic of the values the generator computes with: how a number of the settings
  and the step count are held as values, the constant \<^verbatim>\<open>1.0\<close>, and the four operations.
  Nothing is assumed of the operations; in particular they may round.
\<close>

record 'v arith =
  of_setting :: "rat \<Rightarrow> 'v"
  of_steps :: "int \<Rightarrow> 'v"
  fone :: 'v
  fadd :: "'v \<Rightarrow> 'v \<Rightarrow> 'v"
  fsub :: "'v \<Rightarrow> 'v \<Rightarrow> 'v"
  fmul :: "'v \<Rightarrow> 'v \<Rightarrow> 'v"
  fdiv :: "'v \<Rightarrow> 'v \<Rightarrow> 'v"

text \<open>Exact arithmetic on the rationals.\<close>

definition exact_arith :: "rat arith" where
  "exact_arith =
     \<lparr>of_setting = (\<lambda>x. x), of_steps = of_int, fone = 1,
      fadd = (+), fsub = (-), fmul = (*), fdiv = (/)\<rparr>"

text \<open>The value of \<^verbatim>\<open>demo_sensor[sensorId]\<close>: the cursor and the precomputed values.\<close>

record 'v demo_entry =
  demo_data_idx :: nat
  demo_data :: "'v list"

text \<open>The first inner loop of \<^verbatim>\<open>setupDemoSensors\<close>: append the value, then add the step.
  The second argument is the number of iterations left.\<close>

fun ascend :: "'v arith \<Rightarrow> nat \<Rightarrow> 'v \<Rightarrow> 'v \<Rightarrow> 'v list \<Rightarrow> 'v \<times> 'v list" where
  "ascend ar 0 demo_step_size d_value xs = (d_value, xs)"
| "ascend ar (Suc k) demo_step_size d_value xs =
     ascend ar k demo_step_size (fadd ar d_value demo_step_size) (xs @ [d_value])"

text \<open>The second inner loop: subtract the step, then append the value.\<close>

fun descend :: "'v arith \<Rightarrow> nat \<Rightarrow> 'v \<Rightarrow> 'v \<Rightarrow> 'v list \<Rightarrow> 'v \<times> 'v list" where
  "descend ar 0 demo_step_size d_value xs = (d_value, xs)"
| "descend ar (Suc k) demo_step_size d_value xs =
     descend ar k demo_step_size (fsub ar d_value demo_step_size)
       (xs @ [fsub ar d_value demo_step_size])"

text \<open>The body of the loop over the sensors. The division raises when
  \<^verbatim>\<open>DEMO_STEPS\<close> is 0; \<^verbatim>\<open>range(0, DEMO_STEPS)\<close> runs \<open>nat DEMO_STEPS\<close> times.\<close>

definition demo_entry_in :: "'v arith \<Rightarrow> int \<Rightarrow> sensor \<Rightarrow> error + 'v demo_entry" where
  "demo_entry_in ar steps s =
     (if steps = 0 then Inl ZeroDivisionError
      else
        let demo_step_size =
              fdiv ar (fmul ar (of_setting ar (maxValue s)) (fone ar)) (of_steps ar steps);
            (d_value, up) = ascend ar (nat steps) demo_step_size (of_setting ar (minValue s)) [];
            (d_value', down) = descend ar (nat steps) demo_step_size d_value up
        in Inr \<lparr>demo_data_idx = 0, demo_data = down\<rparr>)"

fun setup_loop :: "'v arith \<Rightarrow> int \<Rightarrow> sensor list \<Rightarrow> (string \<rightharpoonup> 'v demo_entry) \<Rightarrow> error + (string \<rightharpoonup> 'v demo_entry)" where
  "setup_loop ar steps [] demo_sensor = Inr demo_sensor"
| "setup_loop ar steps (s # ss) demo_sensor =
     (case demo_entry_in ar steps s of
        Inl e \<Rightarrow> Inl e
      | Inr entry \<Rightarrow> setup_loop ar steps ss (demo_sensor(sensorId s \<mapsto> entry)))"

definition setupDemoSensors_in :: "'v arith \<Rightarrow> settings \<Rightarrow> error + (string \<rightharpoonup> 'v demo_entry)" where
  "setupDemoSensors_in ar cfg = setup_loop ar (DEMO_STEPS cfg) (SENSORS cfg) Map.empty"

text \<open>The generator in exact arithmetic: the step is \<open>(maxValue * 1) / DEMO_STEPS\<close>, the
  ramp adds it and the descent subtracts it.\<close>

definition demo_entry_for :: "int \<Rightarrow> sensor \<Rightarrow> error + rat demo_entry" where
  "demo_entry_for steps s = demo_entry_in exact_arith steps s"

definition setupDemoSensors :: "settings \<Rightarrow> error + (string \<rightharpoonup> rat demo_entry)" where
  "setupDemoSensors cfg = setupDemoSensors_in exact_arith cfg"

text \<open>The cursor update at the end of the demo branch of the sensor loop.\<close>

definition advance_idx :: "int \<Rightarrow> nat \<Rightarrow> nat" where
  "advance_idx steps idx = (if int idx < (steps * 2) - 1 then idx + 1 else 0)"

section \<open>SerialIO: the acquisition loop\<close>

text \<open>
  The local variables and the three queues of \<^verbatim>\<open>SerialIO\<close>. \<^verbatim>\<open>demo_sensor\<close> is unbound
  until \<^verbatim>\<open>setupDemoSensors\<close> has run. Every call of \<^verbatim>\<open>timeit.default_timer()\<close> reads
  the next value of a clock \<open>clock :: nat \<Rightarrow> rat\<close>; \<open>clock_calls\<close> counts the calls made.
\<close>

record serial_state =
  SERIALIO_DEMO :: bool
  demo_sensor :: "(string \<rightharpoonup> rat demo_entry) option"
  connected :: bool
  highest_sample_rate :: rat
  sample_counter_id :: string
  sensor_timer :: "string \<rightharpoonup> rat"
  counter :: int
  sample_start :: rat
  sample_time :: rat
  transmitQueue :: "string list"
  receiveQueue :: "sample_event list"
  controlQueue :: "ControlData list"
  clock_calls :: nat

text \<open>The search for the sensor with the highest sample rate.\<close>

fun find_highest_rate :: "sensor list \<Rightarrow> rat \<times> string \<Rightarrow> rat \<times> string" where
  "find_highest_rate [] (rate, sid) = (rate, sid)"
| "find_highest_rate (s # ss) (rate, sid) =
     (if refresh s < rate then find_highest_rate ss (refresh s, sensorId s)
      else find_highest_rate ss (rate, sid))"

text \<open>The loop that starts a timer for every sensor, one clock reading each.\<close>

fun reset_timers :: "(nat \<Rightarrow> rat) \<Rightarrow> sensor list \<Rightarrow> (string \<rightharpoonup> rat) \<times> nat \<Rightarrow> (string \<rightharpoonup> rat) \<times> nat" where
  "reset_timers clock [] (timers, n) = (timers, n)"
| "reset_timers clock (s # ss) (timers, n) =
     reset_timers clock ss (timers(sensorId s \<mapsto> clock n), Suc n)"

text \<open>Everything before the \<^verbatim>\<open>while True\<close> loop. The log line that prints
  \<^verbatim>\<open>1 / highest_sample_rate\<close> raises when that rate is 0.\<close>

definition SerialIO_init :: "(nat \<Rightarrow> rat) \<Rightarrow> settings \<Rightarrow> error + serial_state" where
  "SerialIO_init clock cfg =
     (case (if settings_SERIALIO_DEMO cfg
            then (case setupDemoSensors cfg of
                    Inl e \<Rightarrow> Inl e
                  | Inr m \<Rightarrow> Inr (True, Some m))
            else Inr (False, None)) of
        Inl e \<Rightarrow> Inl e
      | Inr (demo, ds) \<Rightarrow>
          let (rate, sid) = find_highest_rate (SENSORS cfg) (99, '''') in
          if rate = 0 then Inl ZeroDivisionError
          else
            let (timers, n) = reset_timers clock (SENSORS cfg) (Map.empty, 0) in
            Inr \<lparr>SERIALIO_DEMO = demo, demo_sensor = ds, connected = False,
                 highest_sample_rate = rate, sample_counter_id = sid,
                 sensor_timer = timers, counter = 0, sample_start = 0, sample_time = 0,
                 transmitQueue = [], receiveQueue = [], controlQueue = [],
                 clock_calls = n\<rparr>)"

text \<open>Listening for a control message: at most one message is taken per iteration.\<close>

definition control_step :: "settings \<Rightarrow> serial_state \<Rightarrow> error + serial_state" where
  "control_step cfg st =
     (case controlQueue st of
        [] \<Rightarrow> Inr st
      | cdata # rest \<Rightarrow>
          let st1 = st\<lparr>controlQueue := rest\<rparr> in
          if isMine cdata (BUTTON_DEST_SERIALIO cfg) then
            (if button cdata \<and> duration cdata = BUTTON_SHORT then
               (if SERIALIO_DEMO st1 then Inr (st1\<lparr>SERIALIO_DEMO := False\<rparr>)
                else (case setupDemoSensors cfg of
                        Inl e \<Rightarrow> Inl e
                      | Inr m \<Rightarrow> Inr (st1\<lparr>SERIALIO_DEMO := True, demo_sensor := Some m\<rparr>)))
             else Inr st1)
          else Inr st1)"

text \<open>The transmit queue: at most one request is taken per iteration; sending it is a
  stub that only logs.\<close>

definition transmit_step :: "serial_state \<Rightarrow> serial_state" where
  "transmit_step st =
     (case transmitQueue st of [] \<Rightarrow> st | txb # rest \<Rightarrow> st\<lparr>transmitQueue := rest\<rparr>)"

text \<open>The pacing test inside the loop over the sensors: the sensor found by the search
  above counts the sample and measures the time since the iteration began.\<close>

definition count_sample :: "(nat \<Rightarrow> rat) \<Rightarrow> sensor \<Rightarrow> serial_state \<Rightarrow> serial_state" where
  "count_sample clock s st =
     (if sensorId s = sample_counter_id st
      then st\<lparr>counter := counter st + 1,
              sample_time := clock (clock_calls st) - sample_start st,
              clock_calls := Suc (clock_calls st)\<rparr>
      else st)"

text \<open>The body of \<^verbatim>\<open>for sensor in settings.SENSORS\<close>.\<close>

definition sensor_step :: "(nat \<Rightarrow> rat) \<Rightarrow> settings \<Rightarrow> sensor \<Rightarrow> serial_state \<Rightarrow> error + serial_state" where
  "sensor_step clock cfg s st =
     (case sensor_timer st (sensorId s) of
        None \<Rightarrow> Inl (KeyError (sensorId s))
      | Some started \<Rightarrow>
          let t = clock (clock_calls st) - started;
              st1 = st\<lparr>clock_calls := Suc (clock_calls st)\<rparr>
          in
          if t \<ge> refresh s then
            let st2 = count_sample clock s st1 in
            if SERIALIO_DEMO st2 then
              (case demo_sensor st2 of
                 None \<Rightarrow> Inl (UnboundLocalError ''demo_sensor'')
               | Some dm \<Rightarrow>
                   (case dm (sensorId s) of
                      None \<Rightarrow> Inl (KeyError (sensorId s))
                    | Some entry \<Rightarrow>
                        if demo_data_idx entry < length (demo_data entry) then
                          let rxb = demo_data entry ! demo_data_idx entry in
                          Inr (st2\<lparr>receiveQueue := receiveQueue st2 @
                                      [(TYPE_DATA, sensorId s, PNum rxb, counter st2, sample_time st2)],
                                   sensor_timer := (sensor_timer st2)(sensorId s \<mapsto> clock (clock_calls st2)),
                                   clock_calls := Suc (clock_calls st2),
                                   demo_sensor := Some (dm(sensorId s \<mapsto>
                                      entry\<lparr>demo_data_idx :=
                                         advance_idx (DEMO_STEPS cfg) (demo_data_idx entry)\<rparr>))\<rparr>)
                        else Inl IndexError))
            else if connected st2 then
              Inr (st2\<lparr>receiveQueue := receiveQueue st2 @
                          [(TYPE_DATA, sensorId s, PStr ''0x0'', counter st2, sample_time st2)],
                       sensor_timer := (sensor_timer st2)(sensorId s \<mapsto> clock (clock_calls st2)),
                       clock_calls := Suc (clock_calls st2)\<rparr>)
            else Inr st2
          else Inr st1)"

fun sensors_loop :: "(nat \<Rightarrow> rat) \<Rightarrow> settings \<Rightarrow> sensor list \<Rightarrow> serial_state \<Rightarrow> error + serial_state" where
  "sensors_loop clock cfg [] st = Inr st"
| "sensors_loop clock cfg (s # ss) st =
     (case sensor_step clock cfg s st of
        Inl e \<Rightarrow> Inl e
      | Inr st' \<Rightarrow> sensors_loop clock cfg ss st')"

text \<open>One iteration of the \<^verbatim>\<open>while True\<close> loop. The sleep at its end only lets the
  clock advance.\<close>

definition loop_body :: "(nat \<Rightarrow> rat) \<Rightarrow> settings \<Rightarrow> serial_state \<Rightarrow> error + serial_state" where
  "loop_body clock cfg st =
     (let st0 = st\<lparr>sample_time := 0, sample_start := clock (clock_calls st),
                    clock_calls := Suc (clock_calls st)\<rparr>
      in case control_step cfg st0 of
           Inl e \<Rightarrow> Inl e
         | Inr st1 \<Rightarrow> sensors_loop clock cfg (SENSORS cfg) (transmit_step st1))"

text \<open>A bounded number of iterations of the loop, which itself never ends.\<close>

fun loop_n :: "nat \<Rightarrow> (nat \<Rightarrow> rat) \<Rightarrow> settings \<Rightarrow> serial_state \<Rightarrow> error + serial_state" where
  "loop_n 0 clock cfg st = Inr st"
| "loop_n (Suc n) clock cfg st =
     (case loop_body clock cfg st of
        Inl e \<Rightarrow> Inl e
      | Inr st' \<Rightarrow> loop_n n clock cfg st')"

section \<open>PyCosworth: the coordinator\<close>

text \<open>
  Modelled from the spec: class \<^verbatim>\<open>EcuData\<close> (\<^verbatim>\<open>libs/EcuData.py\<close>) is not among the
  sources. It holds the shared structures it is constructed from: the dictionaries of
  current and previous values (\<^verbatim>\<open>data\<close>, \<^verbatim>\<open>data_previous\<close>), the sample counter and
  cycle time (\<^verbatim>\<open>counter.value\<close>, \<^verbatim>\<open>timer.value\<close>) and the fixed-size error array.
\<close>

record EcuData =
  data :: "string \<rightharpoonup> pyval"
  data_previous :: "string \<rightharpoonup> pyval"
  counter_value :: int
  timer_value :: rat
  errors :: "int list"

text \<open>
  Modelled from the spec: \<^verbatim>\<open>EcuData.set_sensor\<close> is not among the sources. The state is
  created with all sensors pre-registered at a null value.
\<close>

definition set_sensor :: "sensor \<Rightarrow> EcuData \<Rightarrow> EcuData" where
  "set_sensor s ecu =
     ecu\<lparr>data := (data ecu)(sensorId s \<mapsto> PNone),
         data_previous := (data_previous ecu)(sensorId s \<mapsto> PNone)\<rparr>"

datatype log_level = DEBUG | INFO | WARN

text \<open>
  The coordinator's state. A queue object is an address; \<open>queues\<close> gives the pending
  control messages of each queue, \<open>bound\<close> the queue that each variable name of the
  script is bound to (a name absent from it is not bound yet), \<open>messageQueues\<close> the
  list of queues that receive every button message, \<open>workers\<close> the targets of the
  processes started so far, and \<open>logged\<close> the lines written to the log by the main loop.
\<close>

record main_state =
  ecuData :: EcuData
  bound :: "string \<rightharpoonup> nat"
  queues :: "nat \<Rightarrow> ControlData list"
  next_queue :: nat
  serialReceiveQueue :: "sample_event list"
  messageQueues :: "nat list"
  workers :: "string list"
  loop_i :: nat
  logged :: "(log_level \<times> string) list"

text \<open>An exception ends the script; the state it leaves behind is kept with it.\<close>

type_synonym main_result = "(error \<times> main_state) + main_state"

definition and_then :: "main_result \<Rightarrow> (main_state \<Rightarrow> main_result) \<Rightarrow> main_result" where
  "and_then r f = (case r of Inl e \<Rightarrow> Inl e | Inr st \<Rightarrow> f st)"

text \<open>\<^verbatim>\<open>name = multiprocessing.Queue()\<close>\<close>

definition new_queue :: "string \<Rightarrow> main_state \<Rightarrow> main_state" where
  "new_queue name st =
     st\<lparr>bound := (bound st)(name \<mapsto> next_queue st),
        queues := (queues st)(next_queue st := []),
        next_queue := Suc (next_queue st)\<rparr>"

text \<open>Creating and starting a process, and \<^verbatim>\<open>workers.append\<close> of it.\<close>

definition start_worker :: "string \<Rightarrow> main_state \<Rightarrow> main_state" where
  "start_worker target st = st\<lparr>workers := workers st @ [target]\<rparr>"

text \<open>\<^verbatim>\<open>messageQueues.append(name)\<close>: evaluating a name that is not bound raises.\<close>

definition append_messageQueue :: "string \<Rightarrow> main_state \<Rightarrow> main_result" where
  "append_messageQueue name st =
     (case bound st name of
        None \<Rightarrow> Inl (NameError name, st)
      | Some q \<Rightarrow> Inr (st\<lparr>messageQueues := messageQueues st @ [q]\<rparr>))"

definition initial_state :: "settings \<Rightarrow> main_state" where
  "initial_state cfg =
     \<lparr>ecuData = fold set_sensor (SENSORS cfg)
                  \<lparr>data = Map.empty, data_previous = Map.empty, counter_value = 0,
                   timer_value = 0, errors = map int [0..<nat (MAX_ERRORS cfg)]\<rparr>,
      bound = Map.empty, queues = (\<lambda>q. []), next_queue = 0, serialReceiveQueue = [],
      messageQueues = [], workers = [], loop_i = 0, logged = []\<rparr>"

definition start_serial :: "main_state \<Rightarrow> main_result" where
  "start_serial st =
     append_messageQueue ''serialControlQueue''
       (start_worker ''serialWorker'' (new_queue ''serialControlQueue'' st))"

definition start_console :: "settings \<Rightarrow> main_state \<Rightarrow> main_result" where
  "start_console cfg st =
     (if USE_CONSOLE cfg then
        append_messageQueue ''matrixControlQueue''
          (start_worker ''consoleWorker'' (new_queue ''consoleControlQueue'' st))
      else Inr st)"

definition start_matrix :: "settings \<Rightarrow> main_state \<Rightarrow> main_result" where
  "start_matrix cfg st =
     (if USE_MATRIX cfg then
        append_messageQueue ''matrixControlQueue''
          (start_worker ''matrixLCDWorker'' (new_queue ''matrixControlQueue'' st))
      else Inr st)"

definition start_buttons :: "settings \<Rightarrow> main_state \<Rightarrow> main_result" where
  "start_buttons cfg st =
     (if USE_BUTTONS cfg then
        Inr (start_worker ''gpioButtonWorker'' (new_queue ''gpioActionQueue'' st))
      else Inr st)"

definition start_graphics :: "settings \<Rightarrow> main_state \<Rightarrow> main_result" where
  "start_graphics cfg st =
     (if USE_GRAPHICS cfg then
        append_messageQueue ''graphicsControlQueue''
          (start_worker ''graphicsWorker'' (new_queue ''graphicsControlQueue'' st))
      else Inr st)"

text \<open>The script up to the line \<^verbatim>\<open>i = 0\<close> before the main loop.\<close>

definition startup :: "settings \<Rightarrow> main_result" where
  "startup cfg =
     and_then (and_then (and_then (and_then (start_serial (initial_state cfg))
       (start_console cfg)) (start_matrix cfg)) (start_buttons cfg)) (start_graphics cfg)"

definition write_log :: "log_level \<Rightarrow> string \<Rightarrow> main_state \<Rightarrow> main_state" where
  "write_log level line st = st\<lparr>logged := logged st @ [(level, line)]\<rparr>"

text \<open>What the main loop does with one tuple \<open>d\<close> taken from the receive queue.\<close>

definition handle_sample :: "sample_event \<Rightarrow> main_state \<Rightarrow> main_result" where
  "handle_sample d st =
     (case d of (d0, d1, d2, d3, d4) \<Rightarrow>
        and_then
          (if d0 = TYPE_ERROR then
             Inr (write_log WARN ''ECU error message received'' st)
           else if d0 = TYPE_DATA then
             (case data (ecuData st) d1 of
                None \<Rightarrow> Inl (KeyError d1, st)
              | Some current \<Rightarrow>
                  Inr (st\<lparr>ecuData := (ecuData st)
                         \<lparr>data_previous := (data_previous (ecuData st))(d1 \<mapsto> current),
                          data := (data (ecuData st))(d1 \<mapsto> d2)\<rparr>\<rparr>))
           else
             Inr (write_log WARN ''Unknown message type from SerialIO process'' st))
          (\<lambda>st'. Inr (st'\<lparr>ecuData := (ecuData st')\<lparr>counter_value := d3, timer_value := d4\<rparr>\<rparr>)))"

text \<open>At most one tuple is taken from the receive queue per iteration.\<close>

definition drain_serial :: "main_state \<Rightarrow> main_result" where
  "drain_serial st =
     (case serialReceiveQueue st of
        [] \<Rightarrow> Inr st
      | d # rest \<Rightarrow>
          handle_sample d (write_log DEBUG ''Got some ECU data'' (st\<lparr>serialReceiveQueue := rest\<rparr>)))"

text \<open>\<^verbatim>\<open>q.put(gpioMessage)\<close> and the loop over \<^verbatim>\<open>messageQueues\<close>.\<close>

definition put :: "nat \<Rightarrow> ControlData \<Rightarrow> main_state \<Rightarrow> main_state" where
  "put q m st = st\<lparr>queues := (queues st)(q := queues st q @ [m])\<rparr>"

definition distribute :: "ControlData \<Rightarrow> main_state \<Rightarrow> main_state" where
  "distribute m st = fold (\<lambda>q. put q m) (messageQueues st) st"

text \<open>At most one button message is taken per iteration; the name of the action queue is
  bound only when the button worker was started.\<close>

definition drain_buttons :: "main_state \<Rightarrow> main_result" where
  "drain_buttons st =
     (case bound st ''gpioActionQueue'' of
        None \<Rightarrow> Inl (NameError ''gpioActionQueue'', st)
      | Some a \<Rightarrow>
          (case queues st a of
             [] \<Rightarrow> Inr st
           | gpioMessage # rest \<Rightarrow>
               Inr (distribute gpioMessage
                      (write_log DEBUG ''Message in the control queue''
                         (st\<lparr>queues := (queues st)(a := rest)\<rparr>)))))"

text \<open>One iteration of the main loop.\<close>

definition main_tick :: "main_state \<Rightarrow> main_result" where
  "main_tick st =
     and_then
       (and_then
          (drain_serial
             (if loop_i st = 10000
              then (write_log INFO ''Still running [main process]'' st)\<lparr>loop_i := 0\<rparr>
              else st))
          drain_buttons)
       (\<lambda>st'. Inr (st'\<lparr>loop_i := loop_i st' + 1\<rparr>))"

text \<open>
  What the other processes add between two iterations of the main loop: the tuples
  SerialIO has put on the receive queue and the messages the button worker has put
  on the action queue (when that queue exists).
\<close>

record arrivals =
  samples :: "sample_event list"
  presses :: "ControlData list"

definition deliver :: "arrivals \<Rightarrow> main_state \<Rightarrow> main_state" where
  "deliver a st =
     (let st' = st\<lparr>serialReceiveQueue := serialReceiveQueue st @ samples a\<rparr> in
      case bound st' ''gpioActionQueue'' of
        None \<Rightarrow> st'
      | Some q \<Rightarrow> st'\<lparr>queues := (queues st')(q := queues st' q @ presses a)\<rparr>)"

text \<open>The main loop, run for as many iterations as there are entries in the list.\<close>

fun main_loop :: "arrivals list \<Rightarrow> main_state \<Rightarrow> main_result" where
  "main_loop [] st = Inr st"
| "main_loop (a # as) st = and_then (main_tick (deliver a st)) (main_loop as)"

definition main :: "settings \<Rightarrow> arrivals list \<Rightarrow> main_result" where
  "main cfg as = and_then (startup cfg) (\<lambda>st. main_loop as (st\<lparr>loop_i := 0\<rparr>))"

text \<open>Taking the tuples of a list off the receive queue one after the other.\<close>

fun handle_samples :: "sample_event list \<Rightarrow> main_state \<Rightarrow> main_result" where
  "handle_samples [] st = Inr st"
| "handle_samples (d # ds) st = and_then (handle_sample d st) (handle_samples ds)"

section \<open>Closed forms used in the statements\<close>

text \<open>The values of a demo sequence as the specification describes them: the upward
  ramp from the minimum, then the same steps taken back from where the ramp ended.\<close>

definition demo_values :: "int \<Rightarrow> sensor \<Rightarrow> rat list" where
  "demo_values steps s =
     map (\<lambda>k. minValue s + of_nat k * (maxValue s / of_int steps)) [0..<nat steps] @
     map (\<lambda>k. minValue s + of_nat (nat steps) * (maxValue s / of_int steps)
                - of_nat (Suc k) * (maxValue s / of_int steps)) [0..<nat steps]"

text \<open>The same in an arbitrary arithmetic: the value at position \<open>k\<close> of the ramp is the
  minimum with the step added \<open>k\<close> times, and the descent starts from the minimum with
  the step added \<open>DEMO_STEPS\<close> times.\<close>

definition demo_step_in :: "'v arith \<Rightarrow> int \<Rightarrow> sensor \<Rightarrow> 'v" where
  "demo_step_in ar steps s =
     fdiv ar (fmul ar (of_setting ar (maxValue s)) (fone ar)) (of_steps ar steps)"

definition demo_values_in :: "'v arith \<Rightarrow> int \<Rightarrow> sensor \<Rightarrow> 'v list" where
  "demo_values_in ar steps s =
     map (\<lambda>k. ((\<lambda>x. fadd ar x (demo_step_in ar steps s)) ^^ k) (of_setting ar (minValue s)))
       [0..<nat steps] @
     map (\<lambda>k. ((\<lambda>x. fsub ar x (demo_step_in ar steps s)) ^^ Suc k)
                (((\<lambda>x. fadd ar x (demo_step_in ar steps s)) ^^ nat steps)
                   (of_setting ar (minValue s))))
       [0..<nat steps]"

text \<open>What holds of SerialIO's state whenever its loop begins an iteration: every
  sensor has a timer, and in demo mode every sensor has a demo sequence of
  \<open>2 \<times> DEMO_STEPS\<close> values with its cursor inside it.\<close>

definition loop_invariant :: "settings \<Rightarrow> serial_state \<Rightarrow> bool" where
  "loop_invariant cfg st \<longleftrightarrow>
     (\<forall>s\<in>set (SENSORS cfg). sensor_timer st (sensorId s) \<noteq> None) \<and>
     (SERIALIO_DEMO st \<longrightarrow>
        (\<exists>dm. demo_sensor st = Some dm \<and>
           (\<forall>s\<in>set (SENSORS cfg). \<exists>e. dm (sensorId s) = Some e \<and>
              demo_data_idx e < length (demo_data e) \<and>
              length (demo_data e) = 2 * nat (DEMO_STEPS cfg))))"

text \<open>\<^verbatim>\<open>SerialIO\<close> as a whole, stopped after \<open>n\<close> iterations of its loop, and the values
  of the tuples it has put on the receive queue.\<close>

definition SerialIO :: "nat \<Rightarrow> (nat \<Rightarrow> rat) \<Rightarrow> settings \<Rightarrow> error + serial_state" where
  "SerialIO n clock cfg =
     (case SerialIO_init clock cfg of
        Inl e \<Rightarrow> Inl e
      | Inr st \<Rightarrow> loop_n n clock cfg st)"


section \<open>Example configurations\<close>

text \<open>The end-to-end scenario of the specification: one sensor RPM from 0 to 8000,
  refreshed every 0.05 s, four demo steps, demo mode on.\<close>

definition rpm_sensor :: sensor where
  "rpm_sensor = \<lparr>sensorId = ''RPM'', refresh = 1 / 20, minValue = 0, maxValue = 8000\<rparr>"

definition rpm_settings :: settings where
  "rpm_settings =
     \<lparr>SENSORS = [rpm_sensor], DEMO_STEPS = 4, settings_SERIALIO_DEMO = True,
      BUTTON_DEST_SERIALIO = 1, MAX_ERRORS = 5, USE_CONSOLE = False, USE_MATRIX = True,
      USE_BUTTONS = True, USE_GRAPHICS = False\<rparr>"

text \<open>A sensor whose minimum is not 0.\<close>

definition boost_sensor :: sensor where
  "boost_sensor = \<lparr>sensorId = ''BOOST'', refresh = 1 / 10, minValue = 10, maxValue = 100\<rparr>"

text \<open>A clock whose \<open>n\<close>-th reading is \<open>n\<close> seconds.\<close>

definition seconds :: "nat \<Rightarrow> rat" where
  "seconds n = of_nat n"

text \<open>The same configuration with the console worker enabled.\<close>

definition console_settings :: settings where
  "console_settings = rpm_settings\<lparr>USE_CONSOLE := True\<rparr>"

text \<open>The same configuration with the graphics worker enabled as well, so that the
  serial, matrix, button and graphics workers are all started.\<close>

definition full_settings :: settings where
  "full_settings = rpm_settings\<lparr>USE_GRAPHICS := True\<rparr>"

text \<open>A short press addressed to worker 1, the id of SerialIO in \<open>rpm_settings\<close>.\<close>

definition short_press :: ControlData where
  "short_press = \<lparr>isMine = (\<lambda>w. w = 1), button = True, duration = BUTTON_SHORT\<rparr>"

text \<open>The same configuration started in live mode, and the state of SerialIO when its
  loop begins there: no demo data, no connection, the timer of RPM started at 0.\<close>

definition live_settings :: settings where
  "live_settings = rpm_settings\<lparr>settings_SERIALIO_DEMO := False\<rparr>"

definition live_start :: serial_state where
  "live_start =
     \<lparr>SERIALIO_DEMO = False, demo_sensor = None, connected = False,
      highest_sample_rate = 1 / 20, sample_counter_id = ''RPM'',
      sensor_timer = [''RPM'' \<mapsto> 0], counter = 0, sample_start = 0, sample_time = 0,
      transmitQueue = [], receiveQueue = [], controlQueue = [], clock_calls = 1\<rparr>"

text \<open>SerialIO in demo mode with the cursor of RPM at index 3.\<close>

definition demo_running :: serial_state where
  "demo_running =
     live_start\<lparr>SERIALIO_DEMO := True,
       demo_sensor := Some [''RPM'' \<mapsto>
         \<lparr>demo_data_idx = 3, demo_data = [0, 2000, 4000, 6000, 6000, 4000, 2000, 0]\<rparr>]\<rparr>"

text \<open>A registry whose only sensor is refreshed every 100 s, and a clock whose readings
  are 200 s apart.\<close>

definition slow_sensor :: sensor where
  "slow_sensor = \<lparr>sensorId = ''SLOW'', refresh = 100, minValue = 0, maxValue = 8000\<rparr>"

definition slow_settings :: settings where
  "slow_settings = rpm_settings\<lparr>SENSORS := [slow_sensor]\<rparr>"

definition slow_clock :: "nat \<Rightarrow> rat" where
  "slow_clock n = of_nat n * 200"

text \<open>A short press addressed to worker 2, which is not SerialIO.\<close>

definition other_press :: ControlData where
  "other_press = \<lparr>isMine = (\<lambda>w. w = 2), button = True, duration = BUTTON_SHORT\<rparr>"

text \<open>The coordinator right after start-up, with one tuple of the given kind waiting on
  the receive queue.\<close>

definition pending :: "msg_kind \<Rightarrow> main_state" where
  "pending k =
     (initial_state rpm_settings)\<lparr>serialReceiveQueue := [(k, ''RPM'', PNum 1, 5, 1 / 2)]\<rparr>"

section \<open>The demo data generator\<close>

lemma upt_0_Suc_shift: "[0..<Suc k] = 0 # map Suc [0..<k]"
  by (simp add: upt_conv_Cons map_Suc_upt del: upt_Suc)

lemma funpow_fadd_swap:
  "fadd ar (((\<lambda>x. fadd ar x st) ^^ j) d) st = ((\<lambda>x. fadd ar x st) ^^ j) (fadd ar d st)"
  using funpow_swap1 [of "\<lambda>x. fadd ar x st" j d] by simp

lemma funpow_fsub_swap:
  "fsub ar (((\<lambda>x. fsub ar x st) ^^ j) d) st = ((\<lambda>x. fsub ar x st) ^^ j) (fsub ar d st)"
  using funpow_swap1 [of "\<lambda>x. fsub ar x st" j d] by simp

lemma ascend_eq:
  "ascend ar k st d xs =
     (((\<lambda>x. fadd ar x st) ^^ k) d, xs @ map (\<lambda>j. ((\<lambda>x. fadd ar x st) ^^ j) d) [0..<k])"
proof (induction k arbitrary: d xs)
  case 0
  show ?case by simp
next
  case (Suc k)
  have "map (\<lambda>j. ((\<lambda>x. fadd ar x st) ^^ j) d) [0..<Suc k] =
        d # map (\<lambda>j. ((\<lambda>x. fadd ar x st) ^^ j) (fadd ar d st)) [0..<k]"
    unfolding upt_0_Suc_shift by (simp add: funpow_fadd_swap)
  then show ?case
    using Suc.IH [of "fadd ar d st" "xs @ [d]"] by (simp add: funpow_fadd_swap del: upt_Suc)
qed

lemma descend_eq:
  "descend ar k st d xs =
     (((\<lambda>x. fsub ar x st) ^^ k) d, xs @ map (\<lambda>j. ((\<lambda>x. fsub ar x st) ^^ Suc j) d) [0..<k])"
proof (induction k arbitrary: d xs)
  case 0
  show ?case by simp
next
  case (Suc k)
  have "map (\<lambda>j. ((\<lambda>x. fsub ar x st) ^^ Suc j) d) [0..<Suc k] =
        fsub ar d st # map (\<lambda>j. ((\<lambda>x. fsub ar x st) ^^ Suc j) (fsub ar d st)) [0..<k]"
    unfolding upt_0_Suc_shift by (simp add: funpow_fsub_swap)
  then show ?case
    using Suc.IH [of "fsub ar d st" "xs @ [fsub ar d st]"]
    by (simp add: funpow_fsub_swap del: upt_Suc)
qed

lemma demo_entry_in_eq:
  assumes "steps \<noteq> 0"
  shows "demo_entry_in ar steps s =
     Inr \<lparr>demo_data_idx = 0, demo_data = demo_values_in ar steps s\<rparr>"
  using assms
  by (simp add: demo_entry_in_def ascend_eq descend_eq demo_values_in_def demo_step_in_def
      Let_def del: funpow.simps)

lemma setup_loop_in_fold:
  assumes "steps \<noteq> 0"
  shows "setup_loop ar steps ss m0 =
     Inr (fold (\<lambda>s m. m(sensorId s \<mapsto>
            \<lparr>demo_data_idx = 0, demo_data = demo_values_in ar steps s\<rparr>)) ss m0)"
  by (induction ss arbitrary: m0) (simp_all add: demo_entry_in_eq [OF assms])

lemma funpow_add_exact: "((\<lambda>x. x + st) ^^ k) d = d + of_nat k * (st :: rat)"
  by (induction k) (simp_all add: algebra_simps)

lemma funpow_sub_exact: "((\<lambda>x. x - st) ^^ k) d = d - of_nat k * (st :: rat)"
  by (induction k) (simp_all add: algebra_simps)

lemma demo_values_in_exact: "demo_values_in exact_arith steps s = demo_values steps s"
  by (simp add: demo_values_in_def demo_step_in_def demo_values_def exact_arith_def
      funpow_add_exact funpow_sub_exact del: funpow.simps)

lemma demo_entry_for_eq:
  assumes "steps \<noteq> 0"
  shows "demo_entry_for steps s = Inr \<lparr>demo_data_idx = 0, demo_data = demo_values steps s\<rparr>"
  using assms by (simp add: demo_entry_for_def demo_entry_in_eq demo_values_in_exact)

lemma setup_loop_fold:
  assumes "steps \<noteq> 0"
  shows "setup_loop exact_arith steps ss m0 =
     Inr (fold (\<lambda>s m. m(sensorId s \<mapsto> \<lparr>demo_data_idx = 0, demo_data = demo_values steps s\<rparr>)) ss m0)"
  by (simp add: setup_loop_in_fold [OF assms] demo_values_in_exact)

lemma fold_upd_other:
  "k \<notin> sensorId ` set ss \<Longrightarrow> fold (\<lambda>s m. m(sensorId s \<mapsto> f s)) ss m0 k = m0 k"
  by (induction ss arbitrary: m0) auto

lemma fold_upd_distinct:
  "distinct (map sensorId ss) \<Longrightarrow> s \<in> set ss \<Longrightarrow>
   fold (\<lambda>s m. m(sensorId s \<mapsto> f s)) ss m0 (sensorId s) = Some (f s)"
  by (induction ss arbitrary: m0) (auto simp: fold_upd_other)

lemma setupDemoSensors_entry:
  assumes "DEMO_STEPS cfg \<noteq> 0" and "distinct (map sensorId (SENSORS cfg))"
    and "s \<in> set (SENSORS cfg)"
  shows "\<exists>m. setupDemoSensors cfg = Inr m \<and>
     m (sensorId s) = Some \<lparr>demo_data_idx = 0, demo_data = demo_values (DEMO_STEPS cfg) s\<rparr>"
  using assms by (simp add: setupDemoSensors_def setupDemoSensors_in_def setup_loop_fold fold_upd_distinct)

lemma length_demo_values: "length (demo_values steps s) = 2 * nat steps"
  by (simp add: demo_values_def)

lemma last_demo_values:
  assumes "0 < steps"
  shows "last (demo_values steps s) = minValue s"
proof -
  from assms obtain k where k: "nat steps = Suc k"
    by (cases "nat steps") auto
  show ?thesis
    by (simp add: demo_values_def k algebra_simps)
qed

lemma funpow_advance_idx:
  "int k \<le> 2 * steps - 1 \<Longrightarrow> (advance_idx steps ^^ k) 0 = k"
  by (induction k) (auto simp: advance_idx_def)









text \<open>
  C5, as the code behaves. Under exact arithmetic the descent subtracts the step exactly
  as often as the ascent added it, so for every sensor, whatever its minimum, the last
  value of the generated sequence is again \<open>minValue\<close>.
\<close>

theorem demo_sequence_returns_to_min:
  assumes "0 < steps"
  shows "\<exists>e. demo_entry_for steps s = Inr e \<and> last (demo_data e) = minValue s"
  using assms by (simp add: demo_entry_for_eq last_demo_values)

theorem demo_sequence_returns_to_min_witness:
  "(0::int) < 4 \<and>
   (\<exists>e. demo_entry_for 4 boost_sensor = Inr e \<and> last (demo_data e) = minValue boost_sensor)"
  using demo_sequence_returns_to_min [of 4 boost_sensor] by simp

text \<open>
  C5, as stated, fails: the sensor BOOST has the minimum 10, not 0, and with four steps
  its sequence ends at 10 all the same.
\<close>

theorem demo_sequence_nonzero_min_counterexample:
  "minValue boost_sensor = 10 \<and>
   demo_entry_for 4 boost_sensor =
     Inr \<lparr>demo_data_idx = 0, demo_data = [10, 35, 60, 85, 85, 60, 35, 10]\<rparr> \<and>
   last [10, 35, 60, 85, 85, 60, 35, 10 :: rat] = minValue boost_sensor"
  by (simp add: boost_sensor_def demo_entry_for_def demo_entry_in_def exact_arith_def
      numeral_eq_Suc)

text \<open>
  C9. The cursor update adds one while the cursor is below \<open>2 \<times> DEMO_STEPS - 1\<close> and
  sets it to 0 from the last index on; starting from 0, \<open>2 \<times> DEMO_STEPS\<close> updates lead
  back to 0.
\<close>

theorem cursor_wraps:
  "(int idx < 2 * steps - 1 \<longrightarrow> advance_idx steps idx = idx + 1) \<and>
   (2 * steps - 1 \<le> int idx \<longrightarrow> advance_idx steps idx = 0) \<and>
   (advance_idx steps ^^ nat (2 * steps)) 0 = 0"
proof (intro conjI)
  show "int idx < 2 * steps - 1 \<longrightarrow> advance_idx steps idx = idx + 1"
    by (simp add: advance_idx_def)
  show "2 * steps - 1 \<le> int idx \<longrightarrow> advance_idx steps idx = 0"
    by (simp add: advance_idx_def)
  show "(advance_idx steps ^^ nat (2 * steps)) 0 = 0"
  proof (cases "0 < steps")
    case True
    then obtain k where k: "nat (2 * steps) = Suc k"
      by (cases "nat (2 * steps)") auto
    then have "int k = 2 * steps - 1" by linarith
    then show ?thesis
      using funpow_advance_idx [of k steps] by (simp add: k advance_idx_def)
  next
    case False
    then show ?thesis by simp
  qed
qed

theorem cursor_wraps_witness:
  "int 2 < 2 * 4 - 1 \<and> advance_idx 4 2 = 3 \<and>
   2 * 4 - 1 \<le> int 7 \<and> advance_idx 4 7 = 0 \<and>
   (advance_idx 4 ^^ 8) 0 = 0"
  using cursor_wraps [of 2 4] cursor_wraps [of 7 4] by simp

section \<open>The coordinator\<close>

lemma and_then_Inl [simp]: "and_then (Inl e) f = Inl e"
  by (simp add: and_then_def)

lemma and_then_Inr [simp]: "and_then (Inr st) f = f st"
  by (simp add: and_then_def)

lemma start_serial_eq:
  "start_serial st =
     Inr (st\<lparr>bound := (bound st)(''serialControlQueue'' \<mapsto> next_queue st),
            queues := (queues st)(next_queue st := []),
            next_queue := Suc (next_queue st),
            workers := workers st @ [''serialWorker''],
            messageQueues := messageQueues st @ [next_queue st]\<rparr>)"
  by (simp add: start_serial_def append_messageQueue_def start_worker_def new_queue_def)

lemma start_console_fails:
  assumes "USE_CONSOLE cfg" and "bound st ''matrixControlQueue'' = None"
  shows "start_console cfg st =
     Inl (NameError ''matrixControlQueue'',
          st\<lparr>bound := (bound st)(''consoleControlQueue'' \<mapsto> next_queue st),
             queues := (queues st)(next_queue st := []),
             next_queue := Suc (next_queue st),
             workers := workers st @ [''consoleWorker'']\<rparr>)"
  using assms
  by (simp add: start_console_def append_messageQueue_def start_worker_def new_queue_def)

lemma handle_sample_data:
  assumes "data (ecuData st) X = Some cur"
  shows "handle_sample (TYPE_DATA, X, v, c, t) st =
     Inr (st\<lparr>ecuData := (ecuData st)
            \<lparr>data_previous := (data_previous (ecuData st))(X \<mapsto> cur),
             data := (data (ecuData st))(X \<mapsto> v),
             counter_value := c, timer_value := t\<rparr>\<rparr>)"
  using assms by (simp add: handle_sample_def)

lemma handle_sample_error:
  "handle_sample (TYPE_ERROR, X, v, c, t) st =
     Inr (st\<lparr>logged := logged st @ [(WARN, ''ECU error message received'')],
            ecuData := (ecuData st)\<lparr>counter_value := c, timer_value := t\<rparr>\<rparr>)"
  by (simp add: handle_sample_def write_log_def)

lemma handle_sample_other:
  "handle_sample (TYPE_OTHER n, X, v, c, t) st =
     Inr (st\<lparr>logged := logged st @ [(WARN, ''Unknown message type from SerialIO process'')],
            ecuData := (ecuData st)\<lparr>counter_value := c, timer_value := t\<rparr>\<rparr>)"
  by (simp add: handle_sample_def write_log_def)

text \<open>A tuple leaves the entries of every sensor other than its own as they were.\<close>

lemma handle_sample_frame:
  assumes "handle_sample d st = Inr st'" and "fst d = TYPE_DATA \<longrightarrow> fst (snd d) \<noteq> s"
  shows "data (ecuData st') s = data (ecuData st) s \<and>
         data_previous (ecuData st') s = data_previous (ecuData st) s"
proof -
  obtain k X v c t where d: "d = (k, X, v, c, t)" by (cases d)
  show ?thesis
  proof (cases k)
    case TYPE_DATA
    with assms d obtain cur where "data (ecuData st) X = Some cur"
      by (auto simp: handle_sample_def split: option.splits)
    with assms d TYPE_DATA show ?thesis
      by (auto simp: handle_sample_data)
  next
    case TYPE_ERROR
    with assms d show ?thesis by (auto simp: handle_sample_error)
  next
    case (TYPE_OTHER n)
    with assms d show ?thesis by (auto simp: handle_sample_other)
  qed
qed

lemma handle_samples_frame:
  "handle_samples ds st = Inr st' \<Longrightarrow>
   \<forall>d\<in>set ds. fst d = TYPE_DATA \<longrightarrow> fst (snd d) \<noteq> s \<Longrightarrow>
   data (ecuData st') s = data (ecuData st) s \<and>
   data_previous (ecuData st') s = data_previous (ecuData st) s"
proof (induction ds arbitrary: st)
  case Nil
  then show ?case by simp
next
  case (Cons d ds)
  from Cons.prems(1) obtain st1 where
    st1: "handle_sample d st = Inr st1" "handle_samples ds st1 = Inr st'"
    by (cases "handle_sample d st") auto
  from handle_sample_frame [OF st1(1)] Cons.prems(2)
  have "data (ecuData st1) s = data (ecuData st) s \<and>
        data_previous (ecuData st1) s = data_previous (ecuData st) s"
    by simp
  moreover from Cons.IH [OF st1(2)] Cons.prems(2)
  have "data (ecuData st') s = data (ecuData st1) s \<and>
        data_previous (ecuData st') s = data_previous (ecuData st1) s"
    by simp
  ultimately show ?case by simp
qed

lemma rpm_registered: "data (ecuData (initial_state rpm_settings)) ''RPM'' = Some PNone"
  by (simp add: initial_state_def rpm_settings_def rpm_sensor_def set_sensor_def)

text \<open>
  C3. For a sensor \<open>X\<close> that has an entry in the dictionary of current values (start-up
  registers every sensor of the settings): after three DATA tuples for \<open>X\<close> with the
  values \<open>v1\<close>, \<open>v2\<close>, \<open>v3\<close> the previous value of \<open>X\<close> is \<open>v2\<close> and the current one
  \<open>v3\<close>; after any single DATA tuple for \<open>X\<close> the previous value is what the current
  value was before it; and whatever tuples are handled, a sensor that none of the DATA
  tuples names keeps its entries unchanged.
\<close>

theorem previous_follows_current:
  assumes "X \<in> dom (data (ecuData st))"
  shows "(\<exists>st'. handle_samples
            [(TYPE_DATA, X, v1, c1, t1), (TYPE_DATA, X, v2, c2, t2), (TYPE_DATA, X, v3, c3, t3)] st
            = Inr st' \<and>
          data_previous (ecuData st') X = Some v2 \<and> data (ecuData st') X = Some v3) \<and>
         (\<exists>st'. handle_sample (TYPE_DATA, X, v, c, t) st = Inr st' \<and>
          data_previous (ecuData st') X = data (ecuData st) X \<and>
          data (ecuData st') X = Some v) \<and>
         (\<forall>ds st' s. handle_samples ds st = Inr st' \<and>
            (\<forall>d\<in>set ds. fst d = TYPE_DATA \<longrightarrow> fst (snd d) \<noteq> s) \<longrightarrow>
            data (ecuData st') s = data (ecuData st) s \<and>
            data_previous (ecuData st') s = data_previous (ecuData st) s)"
proof (intro conjI)
  from assms obtain cur where cur: "data (ecuData st) X = Some cur" by auto
  show "\<exists>st'. handle_samples
            [(TYPE_DATA, X, v1, c1, t1), (TYPE_DATA, X, v2, c2, t2), (TYPE_DATA, X, v3, c3, t3)] st
            = Inr st' \<and>
          data_previous (ecuData st') X = Some v2 \<and> data (ecuData st') X = Some v3"
    by (simp add: handle_sample_data cur)
  show "\<exists>st'. handle_sample (TYPE_DATA, X, v, c, t) st = Inr st' \<and>
          data_previous (ecuData st') X = data (ecuData st) X \<and>
          data (ecuData st') X = Some v"
    by (simp add: handle_sample_data cur)
  show "\<forall>ds st' s. handle_samples ds st = Inr st' \<and>
            (\<forall>d\<in>set ds. fst d = TYPE_DATA \<longrightarrow> fst (snd d) \<noteq> s) \<longrightarrow>
            data (ecuData st') s = data (ecuData st) s \<and>
            data_previous (ecuData st') s = data_previous (ecuData st) s"
    using handle_samples_frame by blast
qed

theorem previous_follows_current_witness:
  "''RPM'' \<in> dom (data (ecuData (initial_state rpm_settings))) \<and>
   (\<exists>st'. handle_samples
      [(TYPE_DATA, ''RPM'', PNum 1, 1, 0), (TYPE_DATA, ''RPM'', PNum 2, 2, 0),
       (TYPE_DATA, ''RPM'', PNum 3, 3, 0)] (initial_state rpm_settings) = Inr st' \<and>
      data_previous (ecuData st') ''RPM'' = Some (PNum 2) \<and>
      data (ecuData st') ''RPM'' = Some (PNum 3) \<and>
      data (ecuData st') ''TPS'' = None \<and> data_previous (ecuData st') ''TPS'' = None)"
proof -
  let ?ds = "[(TYPE_DATA, ''RPM'', PNum 1, 1, 0), (TYPE_DATA, ''RPM'', PNum 2, 2, 0),
              (TYPE_DATA, ''RPM'', PNum 3, 3, 0)] :: sample_event list"
  have h: "''RPM'' \<in> dom (data (ecuData (initial_state rpm_settings)))"
    using rpm_registered by blast
  have others: "\<forall>d\<in>set ?ds. fst d = TYPE_DATA \<longrightarrow> fst (snd d) \<noteq> ''TPS''"
    by simp
  have tps: "data (ecuData (initial_state rpm_settings)) ''TPS'' = None"
    "data_previous (ecuData (initial_state rpm_settings)) ''TPS'' = None"
    by (simp_all add: initial_state_def rpm_settings_def rpm_sensor_def set_sensor_def)
  note inst = previous_follows_current [OF h, where ?v1.0 = "PNum 1" and ?c1.0 = 1 and ?t1.0 = 0
      and ?v2.0 = "PNum 2" and ?c2.0 = 2 and ?t2.0 = 0
      and ?v3.0 = "PNum 3" and ?c3.0 = 3 and ?t3.0 = 0]
  from inst obtain st' where
    run: "handle_samples ?ds (initial_state rpm_settings) = Inr st'"
      "data_previous (ecuData st') ''RPM'' = Some (PNum 2)"
      "data (ecuData st') ''RPM'' = Some (PNum 3)"
    by blast
  from inst run(1) others
  have "data (ecuData st') ''TPS'' = data (ecuData (initial_state rpm_settings)) ''TPS'' \<and>
        data_previous (ecuData st') ''TPS'' =
          data_previous (ecuData (initial_state rpm_settings)) ''TPS''"
    by blast
  with tps run h show ?thesis by auto
qed

text \<open>
  C7, as the code behaves. A tuple taken from the receive queue is handled by its kind:
  DATA (for a sensor with an entry) moves the current value to the previous one and
  stores the new value; ERROR only logs a warning; any other kind only logs a warning;
  the last two leave the values and the error array as they were. In all three cases
  the counter and the cycle time of the shared state are overwritten with those of the
  tuple, and the coordinator goes on.
\<close>

theorem drain_serial_by_kind:
  assumes "serialReceiveQueue st = (k, X, v, c, t) # rest"
  shows "(k = TYPE_DATA \<and> data (ecuData st) X = Some cur \<longrightarrow>
            drain_serial st =
              Inr (st\<lparr>serialReceiveQueue := rest,
                     logged := logged st @ [(DEBUG, ''Got some ECU data'')],
                     ecuData := (ecuData st)
                       \<lparr>data_previous := (data_previous (ecuData st))(X \<mapsto> cur),
                        data := (data (ecuData st))(X \<mapsto> v),
                        counter_value := c, timer_value := t\<rparr>\<rparr>)) \<and>
         (k = TYPE_ERROR \<longrightarrow>
            drain_serial st =
              Inr (st\<lparr>serialReceiveQueue := rest,
                     logged := logged st @ [(DEBUG, ''Got some ECU data''),
                                            (WARN, ''ECU error message received'')],
                     ecuData := (ecuData st)\<lparr>counter_value := c, timer_value := t\<rparr>\<rparr>)) \<and>
         (k \<noteq> TYPE_DATA \<and> k \<noteq> TYPE_ERROR \<longrightarrow>
            drain_serial st =
              Inr (st\<lparr>serialReceiveQueue := rest,
                     logged := logged st @ [(DEBUG, ''Got some ECU data''),
                                            (WARN, ''Unknown message type from SerialIO process'')],
                     ecuData := (ecuData st)\<lparr>counter_value := c, timer_value := t\<rparr>\<rparr>))"
  using assms
  by (cases k)
    (simp_all add: drain_serial_def handle_sample_data handle_sample_error
      handle_sample_other write_log_def)

theorem drain_serial_by_kind_witness:
  "serialReceiveQueue (pending TYPE_DATA) = (TYPE_DATA, ''RPM'', PNum 1, 5, 1 / 2) # [] \<and>
   data (ecuData (pending TYPE_DATA)) ''RPM'' = Some PNone \<and>
   drain_serial (pending TYPE_DATA) =
     Inr ((pending TYPE_DATA)\<lparr>serialReceiveQueue := [],
            logged := logged (pending TYPE_DATA) @ [(DEBUG, ''Got some ECU data'')],
            ecuData := (ecuData (pending TYPE_DATA))
              \<lparr>data_previous := (data_previous (ecuData (pending TYPE_DATA)))(''RPM'' \<mapsto> PNone),
               data := (data (ecuData (pending TYPE_DATA)))(''RPM'' \<mapsto> PNum 1),
               counter_value := 5, timer_value := 1 / 2\<rparr>\<rparr>) \<and>
   serialReceiveQueue (pending TYPE_ERROR) = (TYPE_ERROR, ''RPM'', PNum 1, 5, 1 / 2) # [] \<and>
   drain_serial (pending TYPE_ERROR) =
     Inr ((pending TYPE_ERROR)\<lparr>serialReceiveQueue := [],
            logged := logged (pending TYPE_ERROR) @
              [(DEBUG, ''Got some ECU data''), (WARN, ''ECU error message received'')],
            ecuData := (ecuData (pending TYPE_ERROR))\<lparr>counter_value := 5, timer_value := 1 / 2\<rparr>\<rparr>) \<and>
   serialReceiveQueue (pending (TYPE_OTHER 7)) = (TYPE_OTHER 7, ''RPM'', PNum 1, 5, 1 / 2) # [] \<and>
   TYPE_OTHER 7 \<noteq> TYPE_DATA \<and> TYPE_OTHER 7 \<noteq> TYPE_ERROR \<and>
   drain_serial (pending (TYPE_OTHER 7)) =
     Inr ((pending (TYPE_OTHER 7))\<lparr>serialReceiveQueue := [],
            logged := logged (pending (TYPE_OTHER 7)) @
              [(DEBUG, ''Got some ECU data''),
               (WARN, ''Unknown message type from SerialIO process'')],
            ecuData := (ecuData (pending (TYPE_OTHER 7)))\<lparr>counter_value := 5, timer_value := 1 / 2\<rparr>\<rparr>)"
proof -
  have q: "serialReceiveQueue (pending k) = (k, ''RPM'', PNum 1, 5, 1 / 2) # []" for k
    by (simp add: pending_def)
  have reg: "data (ecuData (pending TYPE_DATA)) ''RPM'' = Some PNone"
    by (simp add: pending_def rpm_registered)
  show ?thesis
    using q reg
      drain_serial_by_kind [OF q [of TYPE_DATA], of PNone]
      drain_serial_by_kind [OF q [of TYPE_ERROR], of PNone]
      drain_serial_by_kind [OF q [of "TYPE_OTHER 7"], of PNone]
    by simp
qed

text \<open>
  C7, as stated, fails twice: a tuple of an unknown kind changes the counter of the shared
  state from 0 to the 5 it carries (and the cycle time to its 1/2), and an ERROR tuple
  leaves the error array exactly as it was.
\<close>

theorem unknown_kind_counterexample:
  "counter_value (ecuData (pending (TYPE_OTHER 7))) = 0 \<and>
   map_sum fst (counter_value \<circ> ecuData) (drain_serial (pending (TYPE_OTHER 7))) = Inr 5 \<and>
   map_sum fst (timer_value \<circ> ecuData) (drain_serial (pending (TYPE_OTHER 7))) = Inr (1 / 2) \<and>
   errors (ecuData (pending TYPE_ERROR)) = [0, 1, 2, 3, 4] \<and>
   map_sum fst (errors \<circ> ecuData) (drain_serial (pending TYPE_ERROR)) = Inr [0, 1, 2, 3, 4]"
  by (simp add: pending_def drain_serial_def handle_sample_error handle_sample_other
      write_log_def initial_state_def rpm_settings_def set_sensor_def upt_rec)

text \<open>
  C10. Whenever \<^verbatim>\<open>USE_CONSOLE\<close> is set, start-up ends with a NameError for
  \<^verbatim>\<open>matrixControlQueue\<close>: at that point only the serial and the console worker have
  been started, the name is not bound, the console's own queue is bound but is not in
  \<^verbatim>\<open>messageQueues\<close>, and the script ends there however long it would have run: no
  iteration of the main loop takes place.
\<close>

theorem console_startup_name_error:
  assumes "USE_CONSOLE cfg"
  shows "\<exists>st q. startup cfg = Inl (NameError ''matrixControlQueue'', st) \<and>
           bound st ''matrixControlQueue'' = None \<and>
           workers st = [''serialWorker'', ''consoleWorker''] \<and>
           bound st ''consoleControlQueue'' = Some q \<and>
           q \<notin> set (messageQueues st) \<and>
           (\<forall>as. main cfg as = Inl (NameError ''matrixControlQueue'', st))"
proof -
  let ?st0 = "initial_state cfg"
  let ?st1 = "?st0\<lparr>bound := (bound ?st0)(''serialControlQueue'' \<mapsto> next_queue ?st0),
        queues := (queues ?st0)(next_queue ?st0 := []),
        next_queue := Suc (next_queue ?st0),
        workers := workers ?st0 @ [''serialWorker''],
        messageQueues := messageQueues ?st0 @ [next_queue ?st0]\<rparr>"
  let ?st2 = "?st1\<lparr>bound := (bound ?st1)(''consoleControlQueue'' \<mapsto> next_queue ?st1),
             queues := (queues ?st1)(next_queue ?st1 := []),
             next_queue := Suc (next_queue ?st1),
             workers := workers ?st1 @ [''consoleWorker'']\<rparr>"
  have unbound: "bound ?st1 ''matrixControlQueue'' = None"
    by (simp add: initial_state_def)
  have fail: "startup cfg = Inl (NameError ''matrixControlQueue'', ?st2)"
    unfolding startup_def start_serial_eq and_then_Inr
    by (simp only: start_console_fails [OF assms unbound] and_then_Inl)
  have "bound ?st2 ''matrixControlQueue'' = None"
    by (simp add: initial_state_def)
  moreover have "workers ?st2 = [''serialWorker'', ''consoleWorker'']"
    by (simp add: initial_state_def)
  moreover have "bound ?st2 ''consoleControlQueue'' = Some 1"
    by (simp add: initial_state_def)
  moreover have "1 \<notin> set (messageQueues ?st2)"
    by (simp add: initial_state_def)
  moreover have "\<forall>as. main cfg as = Inl (NameError ''matrixControlQueue'', ?st2)"
    by (simp add: main_def fail)
  ultimately show ?thesis
    using fail by blast
qed

theorem console_startup_name_error_witness:
  "USE_CONSOLE console_settings \<and>
   (\<exists>st q. startup console_settings = Inl (NameError ''matrixControlQueue'', st) \<and>
      bound st ''matrixControlQueue'' = None \<and>
      workers st = [''serialWorker'', ''consoleWorker''] \<and>
      bound st ''consoleControlQueue'' = Some q \<and>
      q \<notin> set (messageQueues st) \<and>
      main console_settings [\<lparr>samples = [], presses = [short_press]\<rparr>] =
        Inl (NameError ''matrixControlQueue'', st))"
proof -
  have h: "USE_CONSOLE console_settings"
    by (simp add: console_settings_def)
  from console_startup_name_error [OF h] h show ?thesis
    by blast
qed

section \<open>The acquisition loop\<close>

lemma count_sample_keeps [simp]:
  "SERIALIO_DEMO (count_sample clock s st) = SERIALIO_DEMO st"
  "demo_sensor (count_sample clock s st) = demo_sensor st"
  "connected (count_sample clock s st) = connected st"
  "sensor_timer (count_sample clock s st) = sensor_timer st"
  "receiveQueue (count_sample clock s st) = receiveQueue st"
  "sample_counter_id (count_sample clock s st) = sample_counter_id st"
  by (simp_all add: count_sample_def)

lemma count_sample_counter:
  "counter (count_sample clock s st) =
     counter st + (if sensorId s = sample_counter_id st then 1 else 0)"
  by (simp add: count_sample_def)

lemma sensor_step_demo:
  assumes "sensor_timer st (sensorId s) = Some started"
    and "refresh s \<le> clock (clock_calls st) - started"
    and "SERIALIO_DEMO st" and "demo_sensor st = Some dm"
    and "dm (sensorId s) = Some entry"
    and "demo_data_idx entry < length (demo_data entry)"
  shows "sensor_step clock cfg s st =
     Inr ((count_sample clock s (st\<lparr>clock_calls := Suc (clock_calls st)\<rparr>))
       \<lparr>receiveQueue := receiveQueue st @
           [(TYPE_DATA, sensorId s, PNum (demo_data entry ! demo_data_idx entry),
             counter (count_sample clock s (st\<lparr>clock_calls := Suc (clock_calls st)\<rparr>)),
             sample_time (count_sample clock s (st\<lparr>clock_calls := Suc (clock_calls st)\<rparr>)))],
         sensor_timer := (sensor_timer st)(sensorId s \<mapsto>
           clock (clock_calls (count_sample clock s (st\<lparr>clock_calls := Suc (clock_calls st)\<rparr>)))),
         clock_calls := Suc (clock_calls (count_sample clock s (st\<lparr>clock_calls := Suc (clock_calls st)\<rparr>))),
         demo_sensor := Some (dm(sensorId s \<mapsto>
           entry\<lparr>demo_data_idx := advance_idx (DEMO_STEPS cfg) (demo_data_idx entry)\<rparr>))\<rparr>)"
  using assms by (simp add: sensor_step_def Let_def)

lemma sensor_step_connected:
  assumes "sensor_timer st (sensorId s) = Some started"
    and "refresh s \<le> clock (clock_calls st) - started"
    and "\<not> SERIALIO_DEMO st" and "connected st"
  shows "sensor_step clock cfg s st =
     Inr ((count_sample clock s (st\<lparr>clock_calls := Suc (clock_calls st)\<rparr>))
       \<lparr>receiveQueue := receiveQueue st @
           [(TYPE_DATA, sensorId s, PStr ''0x0'',
             counter (count_sample clock s (st\<lparr>clock_calls := Suc (clock_calls st)\<rparr>)),
             sample_time (count_sample clock s (st\<lparr>clock_calls := Suc (clock_calls st)\<rparr>)))],
         sensor_timer := (sensor_timer st)(sensorId s \<mapsto>
           clock (clock_calls (count_sample clock s (st\<lparr>clock_calls := Suc (clock_calls st)\<rparr>)))),
         clock_calls := Suc (clock_calls (count_sample clock s (st\<lparr>clock_calls := Suc (clock_calls st)\<rparr>)))\<rparr>)"
  using assms by (simp add: sensor_step_def Let_def)

lemma sensor_step_disconnected:
  assumes "sensor_timer st (sensorId s) = Some started"
    and "refresh s \<le> clock (clock_calls st) - started"
    and "\<not> SERIALIO_DEMO st" and "\<not> connected st"
  shows "sensor_step clock cfg s st =
     Inr (count_sample clock s (st\<lparr>clock_calls := Suc (clock_calls st)\<rparr>))"
  using assms by (simp add: sensor_step_def Let_def)

lemma setupDemoSensors_all:
  assumes "0 < DEMO_STEPS cfg" and "distinct (map sensorId (SENSORS cfg))"
  shows "\<exists>dm. setupDemoSensors cfg = Inr dm \<and>
     (\<forall>s\<in>set (SENSORS cfg).
        dm (sensorId s) = Some \<lparr>demo_data_idx = 0, demo_data = demo_values (DEMO_STEPS cfg) s\<rparr>)"
proof -
  from assms(1) have nz: "DEMO_STEPS cfg \<noteq> 0" by simp
  show ?thesis
    using assms(2)
    by (simp add: setupDemoSensors_def setupDemoSensors_in_def setup_loop_fold [OF nz]
        fold_upd_distinct)
qed

lemma demo_values_first:
  assumes "0 < steps"
  shows "0 < length (demo_values steps s) \<and> demo_values steps s ! 0 = minValue s"
proof -
  from assms obtain k where k: "nat steps = Suc k"
    by (cases "nat steps") auto
  show ?thesis
    by (simp add: demo_values_def k upt_conv_Cons del: upt_Suc)
qed

text \<open>
  C6, as the code behaves. For a sensor whose timer has expired: in demo mode (with a
  value at the sensor's cursor) one DATA tuple with that value is put on the receive
  queue and the timer is set to the clock reading taken then; in live mode with a
  connection one DATA tuple with the value read is put and the timer is set likewise;
  in live mode without a connection nothing is put and the timers stay as they were.
\<close>

theorem sensor_step_due:
  assumes "sensor_timer st (sensorId s) = Some started"
    and "refresh s \<le> clock (clock_calls st) - started"
  shows "(SERIALIO_DEMO st \<and> demo_sensor st = Some dm \<and> dm (sensorId s) = Some entry \<and>
          demo_data_idx entry < length (demo_data entry) \<longrightarrow>
            (\<exists>st'. sensor_step clock cfg s st = Inr st' \<and>
               receiveQueue st' = receiveQueue st @
                 [(TYPE_DATA, sensorId s, PNum (demo_data entry ! demo_data_idx entry),
                   counter st', sample_time st')] \<and>
               sensor_timer st' (sensorId s) = Some (clock (clock_calls st' - 1)))) \<and>
         (\<not> SERIALIO_DEMO st \<and> connected st \<longrightarrow>
            (\<exists>st'. sensor_step clock cfg s st = Inr st' \<and>
               receiveQueue st' = receiveQueue st @
                 [(TYPE_DATA, sensorId s, PStr ''0x0'', counter st', sample_time st')] \<and>
               sensor_timer st' (sensorId s) = Some (clock (clock_calls st' - 1)))) \<and>
         (\<not> SERIALIO_DEMO st \<and> \<not> connected st \<longrightarrow>
            (\<exists>st'. sensor_step clock cfg s st = Inr st' \<and>
               receiveQueue st' = receiveQueue st \<and>
               sensor_timer st' = sensor_timer st))"
proof (intro conjI impI)
  assume "SERIALIO_DEMO st \<and> demo_sensor st = Some dm \<and> dm (sensorId s) = Some entry \<and>
          demo_data_idx entry < length (demo_data entry)"
  then show "\<exists>st'. sensor_step clock cfg s st = Inr st' \<and>
               receiveQueue st' = receiveQueue st @
                 [(TYPE_DATA, sensorId s, PNum (demo_data entry ! demo_data_idx entry),
                   counter st', sample_time st')] \<and>
               sensor_timer st' (sensorId s) = Some (clock (clock_calls st' - 1))"
    using assms sensor_step_demo [of st s started clock dm entry cfg] by simp
next
  assume "\<not> SERIALIO_DEMO st \<and> connected st"
  then show "\<exists>st'. sensor_step clock cfg s st = Inr st' \<and>
               receiveQueue st' = receiveQueue st @
                 [(TYPE_DATA, sensorId s, PStr ''0x0'', counter st', sample_time st')] \<and>
               sensor_timer st' (sensorId s) = Some (clock (clock_calls st' - 1))"
    using assms sensor_step_connected [of st s started clock cfg] by simp
next
  assume "\<not> SERIALIO_DEMO st \<and> \<not> connected st"
  then show "\<exists>st'. sensor_step clock cfg s st = Inr st' \<and>
               receiveQueue st' = receiveQueue st \<and>
               sensor_timer st' = sensor_timer st"
    using assms sensor_step_disconnected [of st s started clock cfg] by simp
qed

theorem sensor_step_due_witness:
  "sensor_timer live_start ''RPM'' = Some 0 \<and>
   refresh rpm_sensor \<le> seconds (clock_calls live_start) - 0 \<and>
   SERIALIO_DEMO demo_running \<and>
   (\<exists>st'. sensor_step seconds rpm_settings rpm_sensor demo_running = Inr st' \<and>
      receiveQueue st' = [(TYPE_DATA, ''RPM'', PNum 6000, counter st', sample_time st')] \<and>
      sensor_timer st' ''RPM'' = Some (seconds (clock_calls st' - 1))) \<and>
   \<not> SERIALIO_DEMO (live_start\<lparr>connected := True\<rparr>) \<and> connected (live_start\<lparr>connected := True\<rparr>) \<and>
   (\<exists>st'. sensor_step seconds rpm_settings rpm_sensor (live_start\<lparr>connected := True\<rparr>) = Inr st' \<and>
      receiveQueue st' = [(TYPE_DATA, ''RPM'', PStr ''0x0'', counter st', sample_time st')] \<and>
      sensor_timer st' ''RPM'' = Some (seconds (clock_calls st' - 1))) \<and>
   \<not> SERIALIO_DEMO live_start \<and> \<not> connected live_start \<and>
   (\<exists>st'. sensor_step seconds rpm_settings rpm_sensor live_start = Inr st' \<and>
      receiveQueue st' = [] \<and> sensor_timer st' = sensor_timer live_start)"
proof -
  let ?e = "\<lparr>demo_data_idx = 3, demo_data = [0, 2000, 4000, 6000, 6000, 4000, 2000, 0 :: rat]\<rparr>"
  let ?dm = "[''RPM'' \<mapsto> ?e]"
  have id: "sensorId rpm_sensor = ''RPM''"
    by (simp add: rpm_sensor_def)
  have t: "sensor_timer st (sensorId rpm_sensor) = Some 0"
    if "sensor_timer st = sensor_timer live_start" for st
    using that by (simp add: live_start_def id)
  have d: "refresh rpm_sensor \<le> seconds (clock_calls st) - 0"
    if "clock_calls st = clock_calls live_start" for st
    using that by (simp add: live_start_def rpm_sensor_def seconds_def)
  have t1: "sensor_timer demo_running (sensorId rpm_sensor) = Some 0"
    and d1: "refresh rpm_sensor \<le> seconds (clock_calls demo_running) - 0"
    by (rule t, simp add: demo_running_def, rule d, simp add: demo_running_def)
  have t2: "sensor_timer (live_start\<lparr>connected := True\<rparr>) (sensorId rpm_sensor) = Some 0"
    and d2: "refresh rpm_sensor \<le> seconds (clock_calls (live_start\<lparr>connected := True\<rparr>)) - 0"
    by (rule t, simp, rule d, simp)
  have t3: "sensor_timer live_start (sensorId rpm_sensor) = Some 0"
    and d3: "refresh rpm_sensor \<le> seconds (clock_calls live_start) - 0"
    by (rule t, simp, rule d, simp)
  have demo: "SERIALIO_DEMO demo_running \<and> demo_sensor demo_running = Some ?dm \<and>
      ?dm (sensorId rpm_sensor) = Some ?e \<and> demo_data_idx ?e < length (demo_data ?e)"
    by (simp add: demo_running_def id)
  have live: "\<not> SERIALIO_DEMO live_start \<and> \<not> connected live_start"
    by (simp add: live_start_def)
  have conn: "\<not> SERIALIO_DEMO (live_start\<lparr>connected := True\<rparr>) \<and>
      connected (live_start\<lparr>connected := True\<rparr>)"
    by (simp add: live_start_def)
  have rq: "receiveQueue demo_running = []" "receiveQueue live_start = []"
    by (simp_all add: demo_running_def live_start_def)
  show ?thesis
    using sensor_step_due [where st = demo_running and s = rpm_sensor and started = 0
        and clock = seconds and dm = ?dm and entry = ?e and cfg = rpm_settings, OF t1 d1]
      sensor_step_due [where st = "live_start\<lparr>connected := True\<rparr>" and s = rpm_sensor
        and started = 0 and clock = seconds and dm = ?dm and entry = ?e
        and cfg = rpm_settings, OF t2 d2]
      sensor_step_due [where st = live_start and s = rpm_sensor and started = 0
        and clock = seconds and dm = ?dm and entry = ?e and cfg = rpm_settings, OF t3 d3]
      demo live conn t3 d3 rq
    by (simp add: id)
qed

text \<open>
  C6, as stated, fails in the third branch: started in live mode, SerialIO has no
  connection; the timer of RPM was started at 0, the sensor is due at the reading 1, and
  after its turn in the loop the timer is still 0 and nothing has been put on the queue.
\<close>

theorem disconnected_timer_counterexample:
  "SerialIO_init seconds live_settings = Inr live_start \<and>
   sensor_timer live_start ''RPM'' = Some 0 \<and>
   refresh rpm_sensor \<le> seconds (clock_calls live_start) - 0 \<and>
   sensor_step seconds live_settings rpm_sensor live_start =
     Inr (live_start\<lparr>counter := 1, sample_time := 2, clock_calls := 3\<rparr>) \<and>
   sensor_timer (live_start\<lparr>counter := 1, sample_time := 2, clock_calls := 3\<rparr>) ''RPM'' = Some 0 \<and>
   receiveQueue (live_start\<lparr>counter := 1, sample_time := 2, clock_calls := 3\<rparr>) = []"
  by (simp add: SerialIO_init_def live_settings_def rpm_settings_def rpm_sensor_def live_start_def
      seconds_def sensor_step_def count_sample_def Let_def)

text \<open>
  C8. A pressed button of short duration addressed to SerialIO toggles demo mode. When
  demo mode was on it is switched off. When it was off (with a positive \<open>DEMO_STEPS\<close>
  and unique sensor ids) it is switched on and \<^verbatim>\<open>demo_sensor\<close> is replaced by the freshly
  generated sequences: every sensor's cursor is 0 and, once its timer has expired, the
  value it emits is the value at index 0 of its sequence, wherever the cursor stood
  before.
\<close>

theorem short_press_toggles_demo:
  assumes "controlQueue st = cdata # rest"
    and "isMine cdata (BUTTON_DEST_SERIALIO cfg)"
    and "button cdata" and "duration cdata = BUTTON_SHORT"
  shows "(SERIALIO_DEMO st \<longrightarrow>
            control_step cfg st = Inr (st\<lparr>controlQueue := rest, SERIALIO_DEMO := False\<rparr>)) \<and>
         (\<not> SERIALIO_DEMO st \<and> 0 < DEMO_STEPS cfg \<and> distinct (map sensorId (SENSORS cfg)) \<longrightarrow>
            (\<exists>dm. setupDemoSensors cfg = Inr dm \<and>
               control_step cfg st =
                 Inr (st\<lparr>controlQueue := rest, SERIALIO_DEMO := True, demo_sensor := Some dm\<rparr>) \<and>
               (\<forall>s\<in>set (SENSORS cfg). \<exists>e.
                  dm (sensorId s) = Some e \<and> demo_data_idx e = 0 \<and> 0 < length (demo_data e) \<and>
                  (\<forall>clock started.
                     sensor_timer st (sensorId s) = Some started \<and>
                     refresh s \<le> clock (clock_calls st) - started \<longrightarrow>
                     (\<exists>st''. sensor_step clock cfg s
                               (st\<lparr>controlQueue := rest, SERIALIO_DEMO := True,
                                   demo_sensor := Some dm\<rparr>) = Inr st'' \<and>
                        receiveQueue st'' = receiveQueue st @
                          [(TYPE_DATA, sensorId s, PNum (demo_data e ! 0),
                            counter st'', sample_time st'')])))))"
proof (intro conjI impI)
  assume "SERIALIO_DEMO st"
  with assms show "control_step cfg st = Inr (st\<lparr>controlQueue := rest, SERIALIO_DEMO := False\<rparr>)"
    by (simp add: control_step_def)
next
  assume off: "\<not> SERIALIO_DEMO st \<and> 0 < DEMO_STEPS cfg \<and> distinct (map sensorId (SENSORS cfg))"
  then obtain dm where dm: "setupDemoSensors cfg = Inr dm"
    and entries: "\<And>s. s \<in> set (SENSORS cfg) \<Longrightarrow>
        dm (sensorId s) = Some \<lparr>demo_data_idx = 0, demo_data = demo_values (DEMO_STEPS cfg) s\<rparr>"
    using setupDemoSensors_all [of cfg] by blast
  let ?st' = "st\<lparr>controlQueue := rest, SERIALIO_DEMO := True, demo_sensor := Some dm\<rparr>"
  have step: "control_step cfg st = Inr ?st'"
    using assms off dm by (simp add: control_step_def)
  have each: "\<exists>e. dm (sensorId s) = Some e \<and> demo_data_idx e = 0 \<and> 0 < length (demo_data e) \<and>
      (\<forall>clock started.
         sensor_timer st (sensorId s) = Some started \<and>
         refresh s \<le> clock (clock_calls st) - started \<longrightarrow>
         (\<exists>st''. sensor_step clock cfg s ?st' = Inr st'' \<and>
            receiveQueue st'' = receiveQueue st @
              [(TYPE_DATA, sensorId s, PNum (demo_data e ! 0), counter st'', sample_time st'')]))"
    if s: "s \<in> set (SENSORS cfg)" for s
  proof -
    let ?e = "\<lparr>demo_data_idx = 0, demo_data = demo_values (DEMO_STEPS cfg) s\<rparr>"
    have e: "dm (sensorId s) = Some ?e" using entries [OF s] .
    have len: "0 < length (demo_data ?e)"
      using off demo_values_first [of "DEMO_STEPS cfg" s] by simp
    have emit: "\<exists>st''. sensor_step clock cfg s ?st' = Inr st'' \<and>
            receiveQueue st'' = receiveQueue st @
              [(TYPE_DATA, sensorId s, PNum (demo_data ?e ! 0), counter st'', sample_time st'')]"
      if due: "sensor_timer st (sensorId s) = Some started \<and>
               refresh s \<le> clock (clock_calls st) - started" for clock started
    proof -
      have "sensor_step clock cfg s ?st' =
          Inr ((count_sample clock s (?st'\<lparr>clock_calls := Suc (clock_calls ?st')\<rparr>))
       \<lparr>receiveQueue := receiveQueue ?st' @
           [(TYPE_DATA, sensorId s, PNum (demo_data ?e ! demo_data_idx ?e),
             counter (count_sample clock s (?st'\<lparr>clock_calls := Suc (clock_calls ?st')\<rparr>)),
             sample_time (count_sample clock s (?st'\<lparr>clock_calls := Suc (clock_calls ?st')\<rparr>)))],
         sensor_timer := (sensor_timer ?st')(sensorId s \<mapsto>
           clock (clock_calls (count_sample clock s (?st'\<lparr>clock_calls := Suc (clock_calls ?st')\<rparr>)))),
         clock_calls := Suc (clock_calls (count_sample clock s (?st'\<lparr>clock_calls := Suc (clock_calls ?st')\<rparr>))),
         demo_sensor := Some (dm(sensorId s \<mapsto>
           ?e\<lparr>demo_data_idx := advance_idx (DEMO_STEPS cfg) (demo_data_idx ?e)\<rparr>))\<rparr>)"
        using due e len
        by (intro sensor_step_demo [where started = started]) simp_all
      then show ?thesis by simp
    qed
    have idx: "demo_data_idx ?e = 0" by simp
    from emit have emit_all: "\<forall>clock started.
         sensor_timer st (sensorId s) = Some started \<and>
         refresh s \<le> clock (clock_calls st) - started \<longrightarrow>
         (\<exists>st''. sensor_step clock cfg s ?st' = Inr st'' \<and>
            receiveQueue st'' = receiveQueue st @
              [(TYPE_DATA, sensorId s, PNum (demo_data ?e ! 0), counter st'', sample_time st'')])"
      by blast
    from e idx len emit_all show ?thesis by blast
  qed
  from dm step each show "\<exists>dm. setupDemoSensors cfg = Inr dm \<and>
               control_step cfg st =
                 Inr (st\<lparr>controlQueue := rest, SERIALIO_DEMO := True, demo_sensor := Some dm\<rparr>) \<and>
               (\<forall>s\<in>set (SENSORS cfg). \<exists>e.
                  dm (sensorId s) = Some e \<and> demo_data_idx e = 0 \<and> 0 < length (demo_data e) \<and>
                  (\<forall>clock started.
                     sensor_timer st (sensorId s) = Some started \<and>
                     refresh s \<le> clock (clock_calls st) - started \<longrightarrow>
                     (\<exists>st''. sensor_step clock cfg s
                               (st\<lparr>controlQueue := rest, SERIALIO_DEMO := True,
                                   demo_sensor := Some dm\<rparr>) = Inr st'' \<and>
                        receiveQueue st'' = receiveQueue st @
                          [(TYPE_DATA, sensorId s, PNum (demo_data e ! 0),
                            counter st'', sample_time st'')])))"
    by blast
qed

theorem short_press_toggles_demo_witness:
  "controlQueue (demo_running\<lparr>controlQueue := [short_press]\<rparr>) = short_press # [] \<and>
   isMine short_press (BUTTON_DEST_SERIALIO rpm_settings) \<and>
   button short_press \<and> duration short_press = BUTTON_SHORT \<and>
   SERIALIO_DEMO (demo_running\<lparr>controlQueue := [short_press]\<rparr>) \<and>
   control_step rpm_settings (demo_running\<lparr>controlQueue := [short_press]\<rparr>) =
     Inr (demo_running\<lparr>controlQueue := [], SERIALIO_DEMO := False\<rparr>) \<and>
   controlQueue (demo_running\<lparr>SERIALIO_DEMO := False, controlQueue := [short_press]\<rparr>) =
     short_press # [] \<and>
   \<not> SERIALIO_DEMO (demo_running\<lparr>SERIALIO_DEMO := False, controlQueue := [short_press]\<rparr>) \<and>
   0 < DEMO_STEPS rpm_settings \<and> distinct (map sensorId (SENSORS rpm_settings)) \<and>
   rpm_sensor \<in> set (SENSORS rpm_settings) \<and>
   sensor_timer (demo_running\<lparr>SERIALIO_DEMO := False, controlQueue := [short_press]\<rparr>)
     (sensorId rpm_sensor) = Some 0 \<and>
   refresh rpm_sensor \<le>
     seconds (clock_calls (demo_running\<lparr>SERIALIO_DEMO := False, controlQueue := [short_press]\<rparr>)) - 0 \<and>
   (\<exists>dm e st''.
      control_step rpm_settings (demo_running\<lparr>SERIALIO_DEMO := False, controlQueue := [short_press]\<rparr>) =
        Inr (demo_running\<lparr>SERIALIO_DEMO := False, controlQueue := [short_press]\<rparr>
               \<lparr>controlQueue := [], SERIALIO_DEMO := True, demo_sensor := Some dm\<rparr>) \<and>
      dm (sensorId rpm_sensor) = Some e \<and> demo_data_idx e = 0 \<and>
      sensor_step seconds rpm_settings rpm_sensor
        (demo_running\<lparr>SERIALIO_DEMO := False, controlQueue := [short_press]\<rparr>
           \<lparr>controlQueue := [], SERIALIO_DEMO := True, demo_sensor := Some dm\<rparr>) = Inr st'' \<and>
      receiveQueue st'' =
        [(TYPE_DATA, sensorId rpm_sensor, PNum (demo_data e ! 0), counter st'', sample_time st'')])"
proof -
  let ?on = "demo_running\<lparr>controlQueue := [short_press]\<rparr>"
  let ?off = "demo_running\<lparr>SERIALIO_DEMO := False, controlQueue := [short_press]\<rparr>"
  have q1: "controlQueue ?on = short_press # []" and q2: "controlQueue ?off = short_press # []"
    by simp_all
  have mine: "isMine short_press (BUTTON_DEST_SERIALIO rpm_settings)"
    and pressed: "button short_press" and short: "duration short_press = BUTTON_SHORT"
    by (simp_all add: short_press_def rpm_settings_def)
  have on: "SERIALIO_DEMO ?on" and off: "\<not> SERIALIO_DEMO ?off"
    by (simp_all add: demo_running_def)
  have cfg: "0 < DEMO_STEPS rpm_settings" "distinct (map sensorId (SENSORS rpm_settings))"
    "rpm_sensor \<in> set (SENSORS rpm_settings)"
    by (simp_all add: rpm_settings_def)
  have due: "sensor_timer ?off (sensorId rpm_sensor) = Some 0"
    "refresh rpm_sensor \<le> seconds (clock_calls ?off) - 0"
    by (simp_all add: demo_running_def live_start_def rpm_sensor_def seconds_def)
  have empty: "receiveQueue ?off = []"
    by (simp add: demo_running_def live_start_def)
  have first: "control_step rpm_settings ?on =
      Inr (demo_running\<lparr>controlQueue := [], SERIALIO_DEMO := False\<rparr>)"
    using short_press_toggles_demo [OF q1 mine pressed short] on by simp
  from short_press_toggles_demo [OF q2 mine pressed short] off cfg
  obtain dm where
    step: "control_step rpm_settings ?off =
        Inr (?off\<lparr>controlQueue := [], SERIALIO_DEMO := True, demo_sensor := Some dm\<rparr>)"
    and each: "\<forall>s\<in>set (SENSORS rpm_settings). \<exists>e.
        dm (sensorId s) = Some e \<and> demo_data_idx e = 0 \<and> 0 < length (demo_data e) \<and>
        (\<forall>clock started.
           sensor_timer ?off (sensorId s) = Some started \<and>
           refresh s \<le> clock (clock_calls ?off) - started \<longrightarrow>
           (\<exists>st''. sensor_step clock rpm_settings s
                     (?off\<lparr>controlQueue := [], SERIALIO_DEMO := True, demo_sensor := Some dm\<rparr>)
                   = Inr st'' \<and>
              receiveQueue st'' = receiveQueue ?off @
                [(TYPE_DATA, sensorId s, PNum (demo_data e ! 0), counter st'', sample_time st'')]))"
    by blast
  from each cfg(3) obtain e where
    e: "dm (sensorId rpm_sensor) = Some e" "demo_data_idx e = 0"
    and emit: "\<forall>clock started.
           sensor_timer ?off (sensorId rpm_sensor) = Some started \<and>
           refresh rpm_sensor \<le> clock (clock_calls ?off) - started \<longrightarrow>
           (\<exists>st''. sensor_step clock rpm_settings rpm_sensor
                     (?off\<lparr>controlQueue := [], SERIALIO_DEMO := True, demo_sensor := Some dm\<rparr>)
                   = Inr st'' \<and>
              receiveQueue st'' = receiveQueue ?off @
                [(TYPE_DATA, sensorId rpm_sensor, PNum (demo_data e ! 0), counter st'', sample_time st'')])"
    by blast
  from emit due obtain st'' where
    st'': "sensor_step seconds rpm_settings rpm_sensor
             (?off\<lparr>controlQueue := [], SERIALIO_DEMO := True, demo_sensor := Some dm\<rparr>) = Inr st''"
      "receiveQueue st'' = receiveQueue ?off @
         [(TYPE_DATA, sensorId rpm_sensor, PNum (demo_data e ! 0), counter st'', sample_time st'')]"
    by blast
  from st''(2) empty have out: "receiveQueue st'' =
      [(TYPE_DATA, sensorId rpm_sensor, PNum (demo_data e ! 0), counter st'', sample_time st'')]"
    by simp
  from q1 mine pressed short on first q2 off cfg due step e st''(1) out
  show ?thesis by blast
qed

section \<open>The loop does not raise\<close>

text \<open>With a positive \<open>DEMO_STEPS\<close> the state reached by the initialisation satisfies
  the invariant, every part of an iteration keeps it, and so every iteration of the
  loop completes.\<close>

lemma fold_upd_member:
  "k \<in> sensorId ` set ss \<Longrightarrow>
   \<exists>s\<in>set ss. fold (\<lambda>s m. m(sensorId s \<mapsto> f s)) ss m0 k = Some (f s)"
proof (induction ss arbitrary: m0)
  case Nil
  then show ?case by simp
next
  case (Cons s ss)
  show ?case
  proof (cases "k \<in> sensorId ` set ss")
    case True
    from Cons.IH [OF True, of "m0(sensorId s \<mapsto> f s)"] show ?thesis by auto
  next
    case False
    with Cons.prems have k: "k = sensorId s" by auto
    from fold_upd_other [OF False]
    have "fold (\<lambda>s m. m(sensorId s \<mapsto> f s)) ss (m0(sensorId s \<mapsto> f s)) k =
        (m0(sensorId s \<mapsto> f s)) k" .
    then have "fold (\<lambda>s m. m(sensorId s \<mapsto> f s)) (s # ss) m0 k = Some (f s)"
      by (simp only: fold_simps k fun_upd_same)
    then show ?thesis by (rule bexI [of _ s]) simp
  qed
qed

lemma setupDemoSensors_ready:
  assumes "0 < DEMO_STEPS cfg"
  shows "\<exists>dm. setupDemoSensors cfg = Inr dm \<and>
     (\<forall>s\<in>set (SENSORS cfg). \<exists>e. dm (sensorId s) = Some e \<and>
        demo_data_idx e < length (demo_data e) \<and>
        length (demo_data e) = 2 * nat (DEMO_STEPS cfg))"
proof -
  from assms have nz: "DEMO_STEPS cfg \<noteq> 0" by simp
  let ?f = "\<lambda>s. \<lparr>demo_data_idx = 0, demo_data = demo_values (DEMO_STEPS cfg) s\<rparr>"
  let ?dm = "fold (\<lambda>s m. m(sensorId s \<mapsto> ?f s)) (SENSORS cfg) Map.empty"
  have run: "setupDemoSensors cfg = Inr ?dm"
    by (simp add: setupDemoSensors_def setupDemoSensors_in_def setup_loop_fold [OF nz])
  have "\<exists>e. ?dm (sensorId s) = Some e \<and> demo_data_idx e < length (demo_data e) \<and>
        length (demo_data e) = 2 * nat (DEMO_STEPS cfg)" if "s \<in> set (SENSORS cfg)" for s
  proof -
    from that have "sensorId s \<in> sensorId ` set (SENSORS cfg)" by simp
    from fold_upd_member [OF this, of ?f Map.empty] obtain s' where
      "?dm (sensorId s) = Some (?f s')" by blast
    with assms show ?thesis by (simp add: length_demo_values)
  qed
  with run show ?thesis by blast
qed

lemma reset_timers_dom:
  "dom (fst (reset_timers clock ss (timers, n))) = dom timers \<union> sensorId ` set ss"
  by (induction ss arbitrary: timers n) auto

lemma SerialIO_init_invariant:
  assumes "0 < DEMO_STEPS cfg" and "SerialIO_init clock cfg = Inr st"
  shows "loop_invariant cfg st"
proof -
  obtain timers n where tn: "reset_timers clock (SENSORS cfg) (Map.empty, 0) = (timers, n)"
    by (cases "reset_timers clock (SENSORS cfg) (Map.empty, 0)")
  from reset_timers_dom [of clock "SENSORS cfg" Map.empty 0] tn
  have dom: "dom timers = sensorId ` set (SENSORS cfg)" by simp
  obtain rate sid where rs: "find_highest_rate (SENSORS cfg) (99, '''') = (rate, sid)"
    by (cases "find_highest_rate (SENSORS cfg) (99, '''')")
  from setupDemoSensors_ready [OF assms(1)] obtain dm where
    dm: "setupDemoSensors cfg = Inr dm"
    and ready: "\<forall>s\<in>set (SENSORS cfg). \<exists>e. dm (sensorId s) = Some e \<and>
        demo_data_idx e < length (demo_data e) \<and>
        length (demo_data e) = 2 * nat (DEMO_STEPS cfg)"
    by blast
  have timers: "sensor_timer st = timers"
    and demo: "SERIALIO_DEMO st \<longrightarrow> demo_sensor st = Some dm"
    using assms(2) by (auto simp: SerialIO_init_def tn rs dm split: if_splits)
  from dom have "\<forall>s\<in>set (SENSORS cfg). timers (sensorId s) \<noteq> None"
    by (metis domIff imageI)
  with timers demo ready show ?thesis
    by (simp add: loop_invariant_def)
qed

lemma control_step_invariant:
  assumes "0 < DEMO_STEPS cfg" and "loop_invariant cfg st"
  shows "\<exists>st'. control_step cfg st = Inr st' \<and> loop_invariant cfg st'"
proof (cases "controlQueue st")
  case Nil
  with assms(2) show ?thesis by (simp add: control_step_def)
next
  case (Cons cdata rest)
  from setupDemoSensors_ready [OF assms(1)] obtain dm where
    dm: "setupDemoSensors cfg = Inr dm"
    and ready: "\<forall>s\<in>set (SENSORS cfg). \<exists>e. dm (sensorId s) = Some e \<and>
        demo_data_idx e < length (demo_data e) \<and>
        length (demo_data e) = 2 * nat (DEMO_STEPS cfg)"
    by blast
  from assms(2) have keep: "loop_invariant cfg (st\<lparr>controlQueue := rest\<rparr>)"
    and off: "loop_invariant cfg (st\<lparr>controlQueue := rest, SERIALIO_DEMO := False\<rparr>)"
    by (simp_all add: loop_invariant_def)
  from assms(2) ready
  have on: "loop_invariant cfg (st\<lparr>controlQueue := rest, SERIALIO_DEMO := True, demo_sensor := Some dm\<rparr>)"
    by (simp add: loop_invariant_def)
  from keep off on show ?thesis
    by (simp add: control_step_def Cons dm Let_def)
qed

lemma transmit_step_invariant:
  "loop_invariant cfg st \<Longrightarrow> loop_invariant cfg (transmit_step st)"
  by (simp add: transmit_step_def loop_invariant_def split: list.splits)

lemma count_sample_invariant:
  "loop_invariant cfg st \<Longrightarrow>
   loop_invariant cfg (count_sample clock s (st\<lparr>clock_calls := n\<rparr>))"
  by (simp add: loop_invariant_def)

lemma advance_idx_less:
  "0 < steps \<Longrightarrow> advance_idx steps idx < 2 * nat steps"
  by (auto simp: advance_idx_def)

lemma sensor_step_invariant:
  assumes "0 < DEMO_STEPS cfg" and "loop_invariant cfg st" and "s \<in> set (SENSORS cfg)"
  shows "\<exists>st'. sensor_step clock cfg s st = Inr st' \<and> loop_invariant cfg st'"
proof -
  from assms(2,3) obtain started where timer: "sensor_timer st (sensorId s) = Some started"
    by (auto simp: loop_invariant_def)
  let ?st2 = "count_sample clock s (st\<lparr>clock_calls := Suc (clock_calls st)\<rparr>)"
  have inv2: "loop_invariant cfg ?st2"
    using assms(2) by (rule count_sample_invariant)
  show ?thesis
  proof (cases "refresh s \<le> clock (clock_calls st) - started")
    case False
    with timer assms(2) show ?thesis
      by (simp add: sensor_step_def Let_def loop_invariant_def)
  next
    case due: True
    show ?thesis
    proof (cases "SERIALIO_DEMO st")
      case False
      show ?thesis
      proof (cases "connected st")
        case True
        have "loop_invariant cfg (?st2\<lparr>receiveQueue := q, sensor_timer := (sensor_timer st)(sensorId s \<mapsto> x),
            clock_calls := n\<rparr>)" for q x n
          using inv2 by (simp add: loop_invariant_def)
        then show ?thesis
          using timer due False True sensor_step_connected [of st s started clock cfg] by simp
      next
        case disconnected: False
        from timer due False disconnected inv2 sensor_step_disconnected [of st s started clock cfg]
        show ?thesis by simp
      qed
    next
      case True
      with assms(2) obtain dm where dm: "demo_sensor st = Some dm"
        and ready: "\<forall>s\<in>set (SENSORS cfg). \<exists>e. dm (sensorId s) = Some e \<and>
            demo_data_idx e < length (demo_data e) \<and>
            length (demo_data e) = 2 * nat (DEMO_STEPS cfg)"
        by (auto simp: loop_invariant_def)
      from ready assms(3) obtain e where e: "dm (sensorId s) = Some e"
        "demo_data_idx e < length (demo_data e)"
        "length (demo_data e) = 2 * nat (DEMO_STEPS cfg)"
        by blast
      let ?e' = "e\<lparr>demo_data_idx := advance_idx (DEMO_STEPS cfg) (demo_data_idx e)\<rparr>"
      have e': "demo_data_idx ?e' < length (demo_data ?e') \<and>
          length (demo_data ?e') = 2 * nat (DEMO_STEPS cfg)"
        using e(3) advance_idx_less [OF assms(1)] by simp
      have "loop_invariant cfg (?st2\<lparr>receiveQueue := q,
            sensor_timer := (sensor_timer st)(sensorId s \<mapsto> x), clock_calls := n,
            demo_sensor := Some (dm(sensorId s \<mapsto> ?e'))\<rparr>)" for q x n
        unfolding loop_invariant_def
      proof (intro conjI ballI impI)
        fix s' assume "s' \<in> set (SENSORS cfg)"
        with assms(2) show "sensor_timer (?st2\<lparr>receiveQueue := q,
            sensor_timer := (sensor_timer st)(sensorId s \<mapsto> x), clock_calls := n,
            demo_sensor := Some (dm(sensorId s \<mapsto> ?e'))\<rparr>) (sensorId s') \<noteq> None"
          by (simp add: loop_invariant_def)
      next
        show "\<exists>dm'. demo_sensor (?st2\<lparr>receiveQueue := q,
            sensor_timer := (sensor_timer st)(sensorId s \<mapsto> x), clock_calls := n,
            demo_sensor := Some (dm(sensorId s \<mapsto> ?e'))\<rparr>) = Some dm' \<and>
           (\<forall>s\<in>set (SENSORS cfg). \<exists>e. dm' (sensorId s) = Some e \<and>
              demo_data_idx e < length (demo_data e) \<and>
              length (demo_data e) = 2 * nat (DEMO_STEPS cfg))"
          using ready e' by (intro exI [of _ "dm(sensorId s \<mapsto> ?e')"]) auto
      qed
      then show ?thesis
        using timer due True dm e(1) e(2) sensor_step_demo [of st s started clock dm e cfg] by simp
    qed
  qed
qed

lemma sensors_loop_invariant:
  assumes "0 < DEMO_STEPS cfg"
  shows "loop_invariant cfg st \<Longrightarrow> set ss \<subseteq> set (SENSORS cfg) \<Longrightarrow>
     \<exists>st'. sensors_loop clock cfg ss st = Inr st' \<and> loop_invariant cfg st'"
proof (induction ss arbitrary: st)
  case Nil
  then show ?case by simp
next
  case (Cons s ss)
  from Cons.prems have "s \<in> set (SENSORS cfg)" by simp
  from sensor_step_invariant [OF assms Cons.prems(1) this] obtain st1 where
    st1: "sensor_step clock cfg s st = Inr st1" "loop_invariant cfg st1"
    by blast
  from Cons.IH [OF st1(2)] Cons.prems(2) st1(1) show ?case by simp
qed

lemma loop_body_total:
  assumes "0 < DEMO_STEPS cfg" and "loop_invariant cfg st"
  shows "\<exists>st'. loop_body clock cfg st = Inr st' \<and> loop_invariant cfg st'"
proof -
  let ?st0 = "st\<lparr>sample_time := 0, sample_start := clock (clock_calls st),
                 clock_calls := Suc (clock_calls st)\<rparr>"
  from assms(2) have "loop_invariant cfg ?st0"
    by (simp add: loop_invariant_def)
  from control_step_invariant [OF assms(1) this] obtain st1 where
    st1: "control_step cfg ?st0 = Inr st1" "loop_invariant cfg st1"
    by blast
  from sensors_loop_invariant [OF assms(1) transmit_step_invariant [OF st1(2)], of "SENSORS cfg" clock]
  obtain st' where "sensors_loop clock cfg (SENSORS cfg) (transmit_step st1) = Inr st'"
    "loop_invariant cfg st'"
    by auto
  with st1(1) show ?thesis
    by (simp add: loop_body_def Let_def)
qed

lemma loop_n_total:
  assumes "0 < DEMO_STEPS cfg"
  shows "loop_invariant cfg st \<Longrightarrow>
     \<exists>st'. loop_n n clock cfg st = Inr st' \<and> loop_invariant cfg st'"
proof (induction n arbitrary: st)
  case 0
  then show ?case by simp
next
  case (Suc n)
  from loop_body_total [OF assms Suc.prems] obtain st1 where
    "loop_body clock cfg st = Inr st1" "loop_invariant cfg st1"
    by blast
  with Suc.IH [of st1] show ?case by simp
qed

lemma SerialIO_loop_total:
  assumes "0 < DEMO_STEPS cfg" and "SerialIO_init clock cfg = Inr st"
  shows "\<exists>st'. loop_n n clock cfg st = Inr st' \<and> loop_invariant cfg st'"
  using loop_n_total [OF assms(1) SerialIO_init_invariant [OF assms]] .

section \<open>The pacing sensor\<close>

text \<open>The search starts from the rate 99 and the empty id, and moves to the first
  sensor with the least refresh interval only if that interval is below 99.\<close>

lemma find_highest_rate_arg_min:
  "find_highest_rate ss (rate, sid) =
     (if ss = [] \<or> rate \<le> refresh (arg_min_list refresh ss) then (rate, sid)
      else (refresh (arg_min_list refresh ss), sensorId (arg_min_list refresh ss)))"
proof (induction ss arbitrary: rate sid)
  case Nil
  show ?case by simp
next
  case (Cons s ss)
  show ?case
  proof (cases ss)
    case Nil
    then show ?thesis by simp
  next
    case (Cons s' ss')
    then have am: "arg_min_list refresh (s # ss) =
        (if refresh s \<le> refresh (arg_min_list refresh ss) then s else arg_min_list refresh ss)"
      by (simp add: Let_def)
    have ne: "ss \<noteq> []" using Cons by simp
    show ?thesis
      unfolding am using ne Cons.IH by (auto simp: not_le not_less)
  qed
qed

lemma sensor_step_counter:
  assumes "sensor_step clock cfg s st = Inr st'"
  shows "sample_counter_id st' = sample_counter_id st \<and>
         counter st \<le> counter st' \<and> counter st' \<le> counter st + 1 \<and>
         (sensorId s \<noteq> sample_counter_id st \<longrightarrow> counter st' = counter st)"
  using assms
  by (auto simp: sensor_step_def count_sample_def Let_def
      split: option.splits if_splits)

lemma sensors_loop_no_pacing:
  "sensors_loop clock cfg ss st = Inr st' \<Longrightarrow>
   sample_counter_id st \<notin> sensorId ` set ss \<Longrightarrow>
   counter st' = counter st \<and> sample_counter_id st' = sample_counter_id st"
proof (induction ss arbitrary: st)
  case Nil
  then show ?case by simp
next
  case (Cons s ss)
  from Cons.prems(1) obtain st1 where
    st1: "sensor_step clock cfg s st = Inr st1" "sensors_loop clock cfg ss st1 = Inr st'"
    by (cases "sensor_step clock cfg s st") auto
  from sensor_step_counter [OF st1(1)] Cons.prems(2)
  have a: "sample_counter_id st1 = sample_counter_id st" "counter st1 = counter st"
    by auto
  with Cons.IH [OF st1(2)] Cons.prems(2) show ?case by auto
qed

lemma sensors_loop_counter:
  "sensors_loop clock cfg ss st = Inr st' \<Longrightarrow> distinct (map sensorId ss) \<Longrightarrow>
   counter st \<le> counter st' \<and> counter st' \<le> counter st + 1"
proof (induction ss arbitrary: st)
  case Nil
  then show ?case by simp
next
  case (Cons s ss)
  from Cons.prems(1) obtain st1 where
    st1: "sensor_step clock cfg s st = Inr st1" "sensors_loop clock cfg ss st1 = Inr st'"
    by (cases "sensor_step clock cfg s st") auto
  note step = sensor_step_counter [OF st1(1)]
  show ?case
  proof (cases "sensorId s = sample_counter_id st")
    case True
    with Cons.prems(2) step have "sample_counter_id st1 \<notin> sensorId ` set ss"
      by auto
    from sensors_loop_no_pacing [OF st1(2) this] step show ?thesis by auto
  next
    case False
    with step have "counter st1 = counter st" by simp
    with Cons.IH [OF st1(2)] Cons.prems(2) show ?thesis by auto
  qed
qed

text \<open>
  C1 at the input on which the code fails: the only sensor has the refresh interval
  100 s, which is not below the initial rate 99 of the search, so no sensor is chosen
  (the id stays empty). The sensor's timer expires in both iterations and a tuple is
  emitted each time, but the sample counter stays 0.
\<close>

theorem sentinel_hides_slow_sensor:
  "map_sum id sample_counter_id (SerialIO_init slow_clock slow_settings) = Inr '''' \<and>
   map_sum id receiveQueue (SerialIO 2 slow_clock slow_settings) =
     Inr [(TYPE_DATA, ''SLOW'', PNum 0, 0, 0), (TYPE_DATA, ''SLOW'', PNum 2000, 0, 0)] \<and>
   map_sum id counter (SerialIO 2 slow_clock slow_settings) = Inr 0"
  by code_simp

section \<open>Distributing button messages\<close>

lemma fold_put_queues:
  "distinct qs \<Longrightarrow>
   queues (fold (\<lambda>q. put q m) qs st) q = (if q \<in> set qs then queues st q @ [m] else queues st q)"
  by (induction qs arbitrary: st) (auto simp: put_def)

lemma distribute_queues:
  "distinct (messageQueues st) \<Longrightarrow>
   queues (distribute m st) q =
     (if q \<in> set (messageQueues st) then queues st q @ [m] else queues st q)"
  by (simp add: distribute_def fold_put_queues)

lemma startup_console_Inl:
  assumes "USE_CONSOLE cfg"
  shows "\<exists>e. startup cfg = Inl e"
proof -
  have "\<exists>st'. start_serial (initial_state cfg) = Inr st' \<and> bound st' ''matrixControlQueue'' = None"
    by (simp add: start_serial_eq initial_state_def)
  then obtain st' where st': "start_serial (initial_state cfg) = Inr st'"
    "bound st' ''matrixControlQueue'' = None"
    by blast
  show ?thesis
    unfolding startup_def st'(1) and_then_Inr
    by (simp only: start_console_fails [OF assms st'(2)] and_then_Inl) blast
qed

lemma startup_registers:
  assumes "\<not> USE_CONSOLE cfg"
  shows "\<exists>st. startup cfg = Inr st \<and>
     workers st = ''serialWorker'' #
       (if USE_MATRIX cfg then [''matrixLCDWorker''] else []) @
       (if USE_BUTTONS cfg then [''gpioButtonWorker''] else []) @
       (if USE_GRAPHICS cfg then [''graphicsWorker''] else []) \<and>
     distinct (messageQueues st) \<and>
     (\<exists>q. bound st ''serialControlQueue'' = Some q \<and> q \<in> set (messageQueues st)) \<and>
     (USE_MATRIX cfg \<longrightarrow>
        (\<exists>q. bound st ''matrixControlQueue'' = Some q \<and> q \<in> set (messageQueues st))) \<and>
     (USE_GRAPHICS cfg \<longrightarrow>
        (\<exists>q. bound st ''graphicsControlQueue'' = Some q \<and> q \<in> set (messageQueues st))) \<and>
     (\<forall>a. bound st ''gpioActionQueue'' = Some a \<longrightarrow> a \<notin> set (messageQueues st))"
  using assms
  by (cases "USE_MATRIX cfg"; cases "USE_BUTTONS cfg"; cases "USE_GRAPHICS cfg")
    (simp_all add: startup_def start_serial_eq start_console_def start_matrix_def
      start_buttons_def start_graphics_def append_messageQueue_def start_worker_def
      new_queue_def initial_state_def)

lemma fold_put_keeps:
  "bound (fold (\<lambda>q. put q m) qs st) = bound st \<and>
   messageQueues (fold (\<lambda>q. put q m) qs st) = messageQueues st \<and>
   workers (fold (\<lambda>q. put q m) qs st) = workers st"
  by (induction qs arbitrary: st) (simp_all add: put_def)

lemma drain_buttons_distributes:
  assumes "bound st ''gpioActionQueue'' = Some a" and "queues st a = m # rest"
    and "distinct (messageQueues st)" and "a \<notin> set (messageQueues st)"
  shows "\<exists>st'. drain_buttons st = Inr st' \<and>
     bound st' = bound st \<and> messageQueues st' = messageQueues st \<and>
     queues st' a = rest \<and>
     (\<forall>q\<in>set (messageQueues st). queues st' q = queues st q @ [m])"
proof -
  let ?st1 = "write_log DEBUG ''Message in the control queue'' (st\<lparr>queues := (queues st)(a := rest)\<rparr>)"
  have run: "drain_buttons st = Inr (distribute m ?st1)"
    using assms(1,2) by (simp add: drain_buttons_def)
  have mq: "messageQueues ?st1 = messageQueues st" and bd: "bound ?st1 = bound st"
    and qs: "queues ?st1 = (queues st)(a := rest)"
    by (simp_all add: write_log_def)
  have d: "distinct (messageQueues ?st1)"
    using assms(3) by (simp add: mq)
  have "queues (distribute m ?st1) q =
      (if q \<in> set (messageQueues st) then queues ?st1 q @ [m] else queues ?st1 q)" for q
    using distribute_queues [OF d, of m q] by (simp add: mq)
  then have each: "queues (distribute m ?st1) q =
      (if q \<in> set (messageQueues st) then queues st q @ [m] else if q = a then rest else queues st q)" for q
    using assms(4) by (auto simp: qs)
  have keep: "bound (distribute m ?st1) = bound st \<and>
      messageQueues (distribute m ?st1) = messageQueues st"
    using fold_put_keeps [of m "messageQueues ?st1" ?st1] by (simp add: distribute_def mq bd)
  from run each keep assms(4) show ?thesis by simp
qed

lemma handle_sample_keeps:
  "handle_sample d st = Inr st' \<Longrightarrow>
   bound st' = bound st \<and> messageQueues st' = messageQueues st \<and> workers st' = workers st"
  by (cases d) (auto simp: handle_sample_def write_log_def and_then_def
      split: if_splits option.splits sum.splits)

lemma drain_serial_keeps:
  "drain_serial st = Inr st' \<Longrightarrow>
   bound st' = bound st \<and> messageQueues st' = messageQueues st \<and> workers st' = workers st"
  by (cases "serialReceiveQueue st")
    (auto simp: drain_serial_def write_log_def dest!: handle_sample_keeps)

lemma drain_buttons_keeps:
  "drain_buttons st = Inr st' \<Longrightarrow>
   bound st' = bound st \<and> messageQueues st' = messageQueues st \<and> workers st' = workers st"
  using fold_put_keeps
  by (auto simp: drain_buttons_def distribute_def write_log_def
      split: option.splits list.splits)

lemma deliver_keeps:
  "bound (deliver a st) = bound st \<and> messageQueues (deliver a st) = messageQueues st \<and>
   workers (deliver a st) = workers st"
  by (simp add: deliver_def Let_def split: option.splits)

lemma main_tick_keeps:
  assumes "main_tick st = Inr st'"
  shows "bound st' = bound st \<and> messageQueues st' = messageQueues st \<and> workers st' = workers st"
proof -
  let ?st0 = "if loop_i st = 10000
              then (write_log INFO ''Still running [main process]'' st)\<lparr>loop_i := 0\<rparr>
              else st"
  have k0: "bound ?st0 = bound st \<and> messageQueues ?st0 = messageQueues st \<and>
      workers ?st0 = workers st"
    by (simp add: write_log_def)
  from assms obtain st1 where st1: "drain_serial ?st0 = Inr st1"
    by (cases "drain_serial ?st0") (auto simp: main_tick_def)
  with assms obtain st2 where st2: "drain_buttons st1 = Inr st2"
    and st': "st' = st2\<lparr>loop_i := loop_i st2 + 1\<rparr>"
    by (cases "drain_buttons st1") (auto simp: main_tick_def)
  from drain_serial_keeps [OF st1] drain_buttons_keeps [OF st2] k0 st'
  show ?thesis by simp
qed

lemma main_loop_keeps:
  "main_loop as st = Inr st' \<Longrightarrow>
   bound st' = bound st \<and> messageQueues st' = messageQueues st \<and> workers st' = workers st"
proof (induction as arbitrary: st)
  case Nil
  then show ?case by simp
next
  case (Cons a as)
  from Cons.prems obtain st1 where st1: "main_tick (deliver a st) = Inr st1"
    "main_loop as st1 = Inr st'"
    by (cases "main_tick (deliver a st)") auto
  from main_tick_keeps [OF st1(1)] deliver_keeps [of a st] Cons.IH [OF st1(2)]
  show ?case by simp
qed

lemma main_keeps:
  assumes "startup cfg = Inr st0" and "main cfg as = Inr st"
  shows "bound st = bound st0 \<and> messageQueues st = messageQueues st0 \<and> workers st = workers st0"
  using assms main_loop_keeps [of as "st0\<lparr>loop_i := 0\<rparr>" st] by (simp add: main_def)

text \<open>
  C2. Whenever the coordinator has started (which it does only with the console worker
  disabled), the workers started are the serial worker and the matrix, button and
  graphics workers as enabled, and the control queue of each of the serial, matrix and
  graphics workers is in \<^verbatim>\<open>messageQueues\<close>. In every state with these bindings, a
  message \<open>m\<close> taken from the action queue is appended exactly once to each of these
  queues; if a message \<open>m'\<close> follows it, every queue holds \<open>m\<close> before \<open>m'\<close> after the
  next iteration. SerialIO, reading the message from its queue, ignores it without any
  other change when \<^verbatim>\<open>isMine\<close> is false for its id, and acts on it when \<^verbatim>\<open>isMine\<close>
  is true (here: a short press switches demo mode off).
\<close>

theorem button_message_reaches_every_worker:
  assumes "startup cfg = Inr st0"
    and "bound st = bound st0" and "messageQueues st = messageQueues st0"
    and "bound st ''gpioActionQueue'' = Some a"
    and "queues st a = m # rest"
  shows "\<not> USE_CONSOLE cfg \<and>
     workers st0 = ''serialWorker'' #
       (if USE_MATRIX cfg then [''matrixLCDWorker''] else []) @
       (if USE_BUTTONS cfg then [''gpioButtonWorker''] else []) @
       (if USE_GRAPHICS cfg then [''graphicsWorker''] else []) \<and>
     (\<exists>q. bound st ''serialControlQueue'' = Some q \<and> q \<in> set (messageQueues st)) \<and>
     (USE_MATRIX cfg \<longrightarrow>
        (\<exists>q. bound st ''matrixControlQueue'' = Some q \<and> q \<in> set (messageQueues st))) \<and>
     (USE_GRAPHICS cfg \<longrightarrow>
        (\<exists>q. bound st ''graphicsControlQueue'' = Some q \<and> q \<in> set (messageQueues st))) \<and>
     (\<exists>st1. drain_buttons st = Inr st1 \<and> queues st1 a = rest \<and>
        (\<forall>q\<in>set (messageQueues st). queues st1 q = queues st q @ [m]) \<and>
        (\<forall>m' rest'. rest = m' # rest' \<longrightarrow>
           (\<exists>st2. drain_buttons st1 = Inr st2 \<and>
              (\<forall>q\<in>set (messageQueues st). queues st2 q = queues st q @ [m, m']))) \<and>
        (\<forall>q sst. bound st ''serialControlQueue'' = Some q \<and> queues st q = [] \<and>
           \<not> isMine m (BUTTON_DEST_SERIALIO cfg) \<longrightarrow>
           control_step cfg (sst\<lparr>controlQueue := queues st1 q\<rparr>) =
             Inr (sst\<lparr>controlQueue := []\<rparr>)) \<and>
        (\<forall>q sst. bound st ''serialControlQueue'' = Some q \<and> queues st q = [] \<and>
           isMine m (BUTTON_DEST_SERIALIO cfg) \<and> button m \<and> duration m = BUTTON_SHORT \<and>
           SERIALIO_DEMO sst \<longrightarrow>
           control_step cfg (sst\<lparr>controlQueue := queues st1 q\<rparr>) =
             Inr (sst\<lparr>controlQueue := [], SERIALIO_DEMO := False\<rparr>)))"
proof -
  have nc: "\<not> USE_CONSOLE cfg"
    using assms(1) startup_console_Inl [of cfg] by auto
  from startup_registers [OF nc] assms(1)
  have w: "workers st0 = ''serialWorker'' #
       (if USE_MATRIX cfg then [''matrixLCDWorker''] else []) @
       (if USE_BUTTONS cfg then [''gpioButtonWorker''] else []) @
       (if USE_GRAPHICS cfg then [''graphicsWorker''] else [])"
    and d0: "distinct (messageQueues st0)"
    and s0: "\<exists>q. bound st0 ''serialControlQueue'' = Some q \<and> q \<in> set (messageQueues st0)"
    and m0: "USE_MATRIX cfg \<longrightarrow>
        (\<exists>q. bound st0 ''matrixControlQueue'' = Some q \<and> q \<in> set (messageQueues st0))"
    and g0: "USE_GRAPHICS cfg \<longrightarrow>
        (\<exists>q. bound st0 ''graphicsControlQueue'' = Some q \<and> q \<in> set (messageQueues st0))"
    and a0: "\<forall>a. bound st0 ''gpioActionQueue'' = Some a \<longrightarrow> a \<notin> set (messageQueues st0)"
    by auto
  have d: "distinct (messageQueues st)" and an: "a \<notin> set (messageQueues st)"
    using d0 a0 assms(2,3,4) by auto
  from drain_buttons_distributes [OF assms(4,5) d an] obtain st1 where
    st1: "drain_buttons st = Inr st1" "bound st1 = bound st"
      "messageQueues st1 = messageQueues st" "queues st1 a = rest"
      "\<forall>q\<in>set (messageQueues st). queues st1 q = queues st q @ [m]"
    by blast
  have second: "\<exists>st2. drain_buttons st1 = Inr st2 \<and>
      (\<forall>q\<in>set (messageQueues st). queues st2 q = queues st q @ [m, m'])"
    if "rest = m' # rest'" for m' rest'
  proof -
    have a1: "bound st1 ''gpioActionQueue'' = Some a" "queues st1 a = m' # rest'"
      using st1 assms(4) that by simp_all
    have d1: "distinct (messageQueues st1)" "a \<notin> set (messageQueues st1)"
      using d an st1(3) by simp_all
    from drain_buttons_distributes [OF a1 d1] obtain st2 where
      "drain_buttons st1 = Inr st2"
      "\<forall>q\<in>set (messageQueues st1). queues st2 q = queues st1 q @ [m']"
      by blast
    with st1(3,5) show ?thesis by auto
  qed
  have ignore: "control_step cfg (sst\<lparr>controlQueue := queues st1 q\<rparr>) =
      Inr (sst\<lparr>controlQueue := []\<rparr>)"
    if "bound st ''serialControlQueue'' = Some q \<and> queues st q = [] \<and>
        \<not> isMine m (BUTTON_DEST_SERIALIO cfg)" for q sst
  proof -
    from that s0 assms(2,3) have "q \<in> set (messageQueues st)" by auto
    with st1(5) that have "queues st1 q = [m]" by simp
    with that show ?thesis by (simp add: control_step_def)
  qed
  have act: "control_step cfg (sst\<lparr>controlQueue := queues st1 q\<rparr>) =
      Inr (sst\<lparr>controlQueue := [], SERIALIO_DEMO := False\<rparr>)"
    if "bound st ''serialControlQueue'' = Some q \<and> queues st q = [] \<and>
        isMine m (BUTTON_DEST_SERIALIO cfg) \<and> button m \<and> duration m = BUTTON_SHORT \<and>
        SERIALIO_DEMO sst" for q sst
  proof -
    from that s0 assms(2,3) have "q \<in> set (messageQueues st)" by auto
    with st1(5) that have "queues st1 q = [m]" by simp
    with that show ?thesis by (simp add: control_step_def)
  qed
  have second_all: "\<forall>m' rest'. rest = m' # rest' \<longrightarrow>
           (\<exists>st2. drain_buttons st1 = Inr st2 \<and>
              (\<forall>q\<in>set (messageQueues st). queues st2 q = queues st q @ [m, m']))"
    using second by blast
  have ignore_all: "\<forall>q sst. bound st ''serialControlQueue'' = Some q \<and> queues st q = [] \<and>
           \<not> isMine m (BUTTON_DEST_SERIALIO cfg) \<longrightarrow>
           control_step cfg (sst\<lparr>controlQueue := queues st1 q\<rparr>) =
             Inr (sst\<lparr>controlQueue := []\<rparr>)"
    using ignore by blast
  have act_all: "\<forall>q sst. bound st ''serialControlQueue'' = Some q \<and> queues st q = [] \<and>
           isMine m (BUTTON_DEST_SERIALIO cfg) \<and> button m \<and> duration m = BUTTON_SHORT \<and>
           SERIALIO_DEMO sst \<longrightarrow>
           control_step cfg (sst\<lparr>controlQueue := queues st1 q\<rparr>) =
             Inr (sst\<lparr>controlQueue := [], SERIALIO_DEMO := False\<rparr>)"
    using act by blast
  have sreg: "\<exists>q. bound st ''serialControlQueue'' = Some q \<and> q \<in> set (messageQueues st)"
    using s0 assms(2,3) by simp
  have mreg: "USE_MATRIX cfg \<longrightarrow>
      (\<exists>q. bound st ''matrixControlQueue'' = Some q \<and> q \<in> set (messageQueues st))"
    using m0 assms(2,3) by simp
  have greg: "USE_GRAPHICS cfg \<longrightarrow>
      (\<exists>q. bound st ''graphicsControlQueue'' = Some q \<and> q \<in> set (messageQueues st))"
    using g0 assms(2,3) by simp
  show ?thesis
    by (insert nc w sreg mreg greg st1(1) st1(4) st1(5) second_all ignore_all act_all,
        intro conjI exI [of _ st1]; assumption)
qed

theorem button_message_reaches_every_worker_witness:
  "\<exists>st0. startup full_settings = Inr st0 \<and>
     bound st0 ''gpioActionQueue'' = Some 2 \<and>
     USE_MATRIX full_settings \<and> USE_GRAPHICS full_settings \<and>
     bound st0 ''serialControlQueue'' = Some 0 \<and> queues st0 0 = [] \<and>
     messageQueues st0 = [0, 1, 3] \<and>
     isMine short_press (BUTTON_DEST_SERIALIO full_settings) \<and> button short_press \<and>
     duration short_press = BUTTON_SHORT \<and> SERIALIO_DEMO demo_running \<and>
     \<not> isMine other_press (BUTTON_DEST_SERIALIO full_settings) \<and>
     (\<exists>st1 st2.
        drain_buttons (st0\<lparr>queues := (queues st0)(2 := [short_press, other_press])\<rparr>) = Inr st1 \<and>
        drain_buttons st1 = Inr st2 \<and>
        queues st1 0 = [short_press] \<and> queues st1 1 = [short_press] \<and>
        queues st1 3 = [short_press] \<and>
        queues st2 0 = [short_press, other_press] \<and>
        queues st2 1 = [short_press, other_press] \<and>
        queues st2 3 = [short_press, other_press] \<and>
        control_step full_settings (demo_running\<lparr>controlQueue := queues st1 0\<rparr>) =
          Inr (demo_running\<lparr>controlQueue := [], SERIALIO_DEMO := False\<rparr>)) \<and>
     (\<exists>st1.
        drain_buttons (st0\<lparr>queues := (queues st0)(2 := [other_press])\<rparr>) = Inr st1 \<and>
        control_step full_settings (demo_running\<lparr>controlQueue := queues st1 0\<rparr>) =
          Inr (demo_running\<lparr>controlQueue := []\<rparr>))"
proof -
  have "\<exists>st0. startup full_settings = Inr st0 \<and> bound st0 ''gpioActionQueue'' = Some 2 \<and>
      bound st0 ''serialControlQueue'' = Some 0 \<and> queues st0 = (\<lambda>q. []) \<and>
      messageQueues st0 = [0, 1, 3]"
    by (simp add: full_settings_def rpm_settings_def startup_def start_serial_eq
        start_console_def start_matrix_def start_buttons_def start_graphics_def
        append_messageQueue_def start_worker_def new_queue_def initial_state_def fun_eq_iff)
  then obtain st0 where st0: "startup full_settings = Inr st0"
    and a: "bound st0 ''gpioActionQueue'' = Some 2"
    and s: "bound st0 ''serialControlQueue'' = Some 0"
    and empty: "queues st0 = (\<lambda>q. [])" and mq: "messageQueues st0 = [0, 1, 3]"
    by blast
  have flags: "USE_MATRIX full_settings" "USE_GRAPHICS full_settings"
    by (simp_all add: full_settings_def rpm_settings_def)
  have mine: "isMine short_press (BUTTON_DEST_SERIALIO full_settings)" "button short_press"
    "duration short_press = BUTTON_SHORT"
    "\<not> isMine other_press (BUTTON_DEST_SERIALIO full_settings)"
    by (simp_all add: short_press_def other_press_def full_settings_def rpm_settings_def)
  have demo: "SERIALIO_DEMO demo_running"
    by (simp add: demo_running_def)
  let ?sa = "st0\<lparr>queues := (queues st0)(2 := [short_press, other_press])\<rparr>"
  let ?sb = "st0\<lparr>queues := (queues st0)(2 := [other_press])\<rparr>"
  have ha: "bound ?sa = bound st0" "messageQueues ?sa = messageQueues st0"
    "bound ?sa ''gpioActionQueue'' = Some 2" "queues ?sa 2 = short_press # [other_press]"
    and hb: "bound ?sb = bound st0" "messageQueues ?sb = messageQueues st0"
    "bound ?sb ''gpioActionQueue'' = Some 2" "queues ?sb 2 = other_press # []"
    using a by simp_all
  have qa: "bound ?sa ''serialControlQueue'' = Some 0 \<and> queues ?sa 0 = []"
    and qb: "bound ?sb ''serialControlQueue'' = Some 0 \<and> queues ?sb 0 = []"
    using s empty by simp_all
  from button_message_reaches_every_worker [OF st0 ha] obtain st1 where
    st1: "drain_buttons ?sa = Inr st1"
      "\<forall>q\<in>set (messageQueues ?sa). queues st1 q = queues ?sa q @ [short_press]"
    and nxt: "\<forall>m' rest'. [other_press] = m' # rest' \<longrightarrow>
           (\<exists>st2. drain_buttons st1 = Inr st2 \<and>
              (\<forall>q\<in>set (messageQueues ?sa). queues st2 q = queues ?sa q @ [short_press, m']))"
    and act: "\<forall>q sst. bound ?sa ''serialControlQueue'' = Some q \<and> queues ?sa q = [] \<and>
           isMine short_press (BUTTON_DEST_SERIALIO full_settings) \<and> button short_press \<and>
           duration short_press = BUTTON_SHORT \<and> SERIALIO_DEMO sst \<longrightarrow>
           control_step full_settings (sst\<lparr>controlQueue := queues st1 q\<rparr>) =
             Inr (sst\<lparr>controlQueue := [], SERIALIO_DEMO := False\<rparr>)"
    by blast
  from nxt obtain st2 where st2: "drain_buttons st1 = Inr st2"
    "\<forall>q\<in>set (messageQueues ?sa). queues st2 q = queues ?sa q @ [short_press, other_press]"
    by blast
  from act qa mine demo
  have c1: "control_step full_settings (demo_running\<lparr>controlQueue := queues st1 0\<rparr>) =
      Inr (demo_running\<lparr>controlQueue := [], SERIALIO_DEMO := False\<rparr>)"
    by blast
  from button_message_reaches_every_worker [OF st0 hb] obtain st1b where
    st1b: "drain_buttons ?sb = Inr st1b"
    and ign: "\<forall>q sst. bound ?sb ''serialControlQueue'' = Some q \<and> queues ?sb q = [] \<and>
           \<not> isMine other_press (BUTTON_DEST_SERIALIO full_settings) \<longrightarrow>
           control_step full_settings (sst\<lparr>controlQueue := queues st1b q\<rparr>) =
             Inr (sst\<lparr>controlQueue := []\<rparr>)"
    by blast
  from ign qb mine
  have c2: "control_step full_settings (demo_running\<lparr>controlQueue := queues st1b 0\<rparr>) =
      Inr (demo_running\<lparr>controlQueue := []\<rparr>)"
    by blast
  from st1(2) st2(2) have qs: "queues st1 0 = [short_press]" "queues st1 1 = [short_press]"
    "queues st1 3 = [short_press]" "queues st2 0 = [short_press, other_press]"
    "queues st2 1 = [short_press, other_press]" "queues st2 3 = [short_press, other_press]"
    by (simp_all add: mq empty)
  have e0: "queues st0 0 = []" by (simp add: empty)
  from st0 a flags s e0 mq mine demo st1(1) st2(1) qs c1 st1b c2 show ?thesis
    by blast
qed

end
